theory Spec2Isabelle
  imports Complex_Main
begin

section \<open>SwimrankingsScraper: a shallow embedding\<close>

text \<open>
  The Python module \<^verbatim>\<open>swimrankingsscraper.py\<close> is embedded function by function.
  Exceptions are values of \<open>py_error\<close> on the left of a sum, so every raise of the source is a
  branch of the model.  Wall-clock readings (\<^verbatim>\<open>time.time()\<close>) are real numbers held in an
  explicit world state, and \<^verbatim>\<open>time.sleep(d)\<close> advances that clock by exactly \<open>d\<close>.  The
  float arithmetic of \<^verbatim>\<open>convert_time\<close> is modelled with its rounding to binary64.  A Python
  string is the list of its code points, each below 256 (\<open>string\<close>); among these the decimal
  digits are the ASCII digits.
\<close>

datatype py_error = AttributeError | IndexError | KeyError | TypeError | ValueError

definition then_do :: "py_error + 'a \<Rightarrow> ('a \<Rightarrow> py_error + 'b) \<Rightarrow> py_error + 'b" where
  "then_do m f = (case m of Inl e \<Rightarrow> Inl e | Inr x \<Rightarrow> f x)"

text \<open>Python indexing \<^verbatim>\<open>xs[i]\<close>: a negative index counts from the end, anything else out of
  range raises \<^verbatim>\<open>IndexError\<close>.\<close>

definition py_index :: "'a list \<Rightarrow> int \<Rightarrow> py_error + 'a" where
  "py_index xs i =
     (if 0 \<le> i \<and> i < int (length xs) then Inr (xs ! nat i)
      else if i < 0 \<and> - int (length xs) \<le> i then Inr (xs ! nat (int (length xs) + i))
      else Inl IndexError)"

subsection \<open>\<^verbatim>\<open>convert_time\<close> and the part of \<^verbatim>\<open>datetime.strptime\<close> it uses\<close>

text \<open>
  \<^verbatim>\<open>strptime\<close> compiles a format into a regular expression, one group per directive:
  \<^verbatim>\<open>%H\<close> is \<^verbatim>\<open>2[0-3]|[0-1]\d|\d\<close>, \<^verbatim>\<open>%M\<close> is \<^verbatim>\<open>[0-5]\d|\d\<close>, \<^verbatim>\<open>%S\<close> is
  \<^verbatim>\<open>6[0-1]|[0-5]\d|\d\<close>, \<^verbatim>\<open>%f\<close> is \<^verbatim>\<open>[0-9]{1,6}\<close>, and any other character stands for
  itself.  The expression is matched at the start of the string by backtracking; the first match
  in the order of the alternatives wins, and text left over after it is an error.  Each piece of
  the expression is modelled as the list of its possible matches (matched text, rest) in that
  order.
\<close>

datatype directive = Dir_H | Dir_M | Dir_S | Dir_f | Lit char

definition char_in :: "nat \<Rightarrow> nat \<Rightarrow> char \<Rightarrow> bool" where
  "char_in lo hi c = (lo \<le> of_char c \<and> (of_char c :: nat) \<le> hi)"

definition is_digit :: "char \<Rightarrow> bool" where
  "is_digit c = char_in 48 57 c"

definition digit_val :: "char \<Rightarrow> nat" where
  "digit_val c = of_char c - 48"

definition py_int_digits :: "string \<Rightarrow> nat" where
  "py_int_digits s = foldl (\<lambda>acc c. acc * 10 + digit_val c) 0 s"

definition alt2 :: "(char \<Rightarrow> bool) \<Rightarrow> (char \<Rightarrow> bool) \<Rightarrow> string \<Rightarrow> (string \<times> string) list" where
  "alt2 p q s = (case s of c # d # r \<Rightarrow> if p c \<and> q d then [([c, d], r)] else [] | _ \<Rightarrow> [])"

definition alt1 :: "(char \<Rightarrow> bool) \<Rightarrow> string \<Rightarrow> (string \<times> string) list" where
  "alt1 p s = (case s of c # r \<Rightarrow> if p c then [([c], r)] else [] | _ \<Rightarrow> [])"

definition re_f :: "string \<Rightarrow> (string \<times> string) list" where
  "re_f s = (let k = length (takeWhile is_digit (take 6 s))
             in map (\<lambda>n. (take n s, drop n s)) (rev [1..<Suc k]))"

fun re_directive :: "directive \<Rightarrow> string \<Rightarrow> (string \<times> string) list" where
  "re_directive Dir_H s =
     alt2 (char_in 50 50) (char_in 48 51) s @ alt2 (char_in 48 49) is_digit s @ alt1 is_digit s"
| "re_directive Dir_M s = alt2 (char_in 48 53) is_digit s @ alt1 is_digit s"
| "re_directive Dir_S s =
     alt2 (char_in 54 54) (char_in 48 49) s @ alt2 (char_in 48 53) is_digit s @ alt1 is_digit s"
| "re_directive Dir_f s = re_f s"
| "re_directive (Lit c) s = alt1 (\<lambda>x. x = c) s"

fun re_match :: "directive list \<Rightarrow> string \<Rightarrow> ((directive \<times> string) list \<times> string) list" where
  "re_match [] s = [([], s)]"
| "re_match (d # ds) s =
     concat (map (\<lambda>(m, r). map (\<lambda>(gs, r'). ((d, m) # gs, r')) (re_match ds r))
                 (re_directive d s))"

record py_time =
  hour :: nat
  minute :: nat
  second :: nat
  microsecond :: nat

definition group_int :: "(directive \<times> string) list \<Rightarrow> directive \<Rightarrow> nat" where
  "group_int gs d = (case map_of gs d of None \<Rightarrow> 0 | Some m \<Rightarrow> py_int_digits m)"

definition group_fraction :: "(directive \<times> string) list \<Rightarrow> nat" where
  "group_fraction gs =
     (case map_of gs Dir_f of None \<Rightarrow> 0
      | Some m \<Rightarrow> py_int_digits (m @ replicate (6 - length m) (CHR ''0'')))"

text \<open>\<^verbatim>\<open>datetime.strptime(data_string, format).time()\<close>.  Every failure is a
  \<^verbatim>\<open>ValueError\<close>: no match, unconverted data, or a second of 60 or 61, which the expression
  accepts and the \<^verbatim>\<open>datetime\<close> constructor refuses.\<close>

definition strptime :: "string \<Rightarrow> directive list \<Rightarrow> py_error + py_time" where
  "strptime data_string fmt =
     (case re_match fmt data_string of
        [] \<Rightarrow> Inl ValueError
      | (gs, rest) # _ \<Rightarrow>
          if rest \<noteq> [] then Inl ValueError
          else if 59 < group_int gs Dir_S then Inl ValueError
          else Inr \<lparr>hour = group_int gs Dir_H, minute = group_int gs Dir_M,
                    second = group_int gs Dir_S, microsecond = group_fraction gs\<rparr>)"

definition fmt_HMSf :: "directive list" where
  "fmt_HMSf = [Dir_H, Lit (CHR '':''), Dir_M, Lit (CHR '':''), Dir_S, Lit (CHR ''.''), Dir_f]"

definition fmt_MSf :: "directive list" where
  "fmt_MSf = [Dir_M, Lit (CHR '':''), Dir_S, Lit (CHR ''.''), Dir_f]"

definition fmt_Sf :: "directive list" where
  "fmt_Sf = [Dir_S, Lit (CHR ''.''), Dir_f]"

text \<open>
  Binary64 floats.  A float is the real number it denotes.  \<open>round_to_double\<close> rounds a real to
  the nearest number with 53 significant bits, ties to the even mantissa, as IEEE 754 does for
  every single operation; below \<open>2 ^ - 1022\<close> the spacing stays \<open>2 ^ - 1074\<close>.  Overflow above
  the largest float is not modelled: the values of \<^verbatim>\<open>convert_time\<close> stay below \<open>2 ^ 17\<close>.
  \<open>floor_log2 x\<close> is the exponent \<open>e\<close> with \<open>2 ^ e \<le> x < 2 ^ (e + 1)\<close>, for positive \<open>x\<close>.
\<close>

fun bit_length :: "nat \<Rightarrow> nat" where
  "bit_length n = (if n = 0 then 0 else Suc (bit_length (n div 2)))"

declare bit_length.simps [simp del]

definition floor_log2 :: "real \<Rightarrow> int" where
  "floor_log2 x =
     (if 1 \<le> x then int (bit_length (nat \<lfloor>x\<rfloor>)) - 1
      else - int (bit_length (nat (\<lceil>1 / x\<rceil> - 1))))"

definition pow2 :: "int \<Rightarrow> real" where
  "pow2 e = (if 0 \<le> e then 2 ^ nat e else 1 / 2 ^ nat (- e))"

definition round_half_even :: "real \<Rightarrow> int" where
  "round_half_even y =
     (let n = \<lfloor>y\<rfloor>; r = y - of_int n
      in if r < 1 / 2 then n else if 1 / 2 < r then n + 1 else if even n then n else n + 1)"

definition round_to_double :: "real \<Rightarrow> real" where
  "round_to_double x =
     (if x = 0 then 0
      else let e = max (floor_log2 \<bar>x\<bar> - 52) (- 1074)
           in sgn x * of_int (round_half_even (\<bar>x\<bar> / pow2 e)) * pow2 e)"

text \<open>Python's \<^verbatim>\<open>a / b\<close> on two integers is the correctly rounded quotient, and \<^verbatim>\<open>n + x\<close>
  on an integer and a float converts the integer (exactly, below \<open>2 ^ 53\<close>) and rounds the sum.\<close>

definition int_truediv :: "nat \<Rightarrow> nat \<Rightarrow> real" where
  "int_truediv a b = round_to_double (real a / real b)"

definition int_add_float :: "nat \<Rightarrow> real \<Rightarrow> real" where
  "int_add_float n x = round_to_double (real n + x)"

text \<open>\<^verbatim>\<open>convert_time\<close>: \<^verbatim>\<open>time_str[-1]\<close> on the empty string raises \<^verbatim>\<open>IndexError\<close> before
  anything is parsed.  The sum \<^verbatim>\<open>second + minute * 60 + hour * 3600\<close> is integer arithmetic;
  the last addend is a float.\<close>

definition convert_time :: "string \<Rightarrow> py_error + real" where
  "convert_time time_str =
     (if time_str = [] then Inl IndexError
      else
        let time_str' = (if last time_str = CHR ''M'' then butlast time_str else time_str);
            col_count = count_list time_str' (CHR '':'');
            time_format = (if col_count = 2 then fmt_HMSf
                           else if col_count = 1 then fmt_MSf
                           else fmt_Sf)
        in case strptime time_str' time_format of
             Inl e \<Rightarrow> Inl e
           | Inr t \<Rightarrow> Inr (int_add_float (second t + minute t * 60 + hour t * 3600)
                                          (int_truediv (microsecond t) 1000000)))"

text \<open>The duration strings of the specification: a field of one or two digits below a bound
  (hours below 24, minutes and seconds below 60), a fraction of one to six digits, the exact
  value such a string denotes (\<open>duration_seconds\<close>), and the float that two roundings make of
  it (\<open>float_seconds\<close>): the fraction rounded, then the sum with the whole seconds rounded.\<close>

definition digits_field :: "nat \<Rightarrow> nat \<Rightarrow> string \<Rightarrow> bool" where
  "digits_field maxlen bound s =
     (s \<noteq> [] \<and> length s \<le> maxlen \<and> list_all is_digit s \<and> py_int_digits s < bound)"

definition fraction_field :: "string \<Rightarrow> bool" where
  "fraction_field s = (s \<noteq> [] \<and> length s \<le> 6 \<and> list_all is_digit s)"

definition duration_seconds :: "string \<Rightarrow> string \<Rightarrow> string \<Rightarrow> string \<Rightarrow> real" where
  "duration_seconds h m s f =
     real (py_int_digits h) * 3600 + real (py_int_digits m) * 60 + real (py_int_digits s)
       + real (py_int_digits f) / 10 ^ length f"

definition float_seconds :: "string \<Rightarrow> string \<Rightarrow> string \<Rightarrow> string \<Rightarrow> real" where
  "float_seconds h m s f =
     round_to_double
       (real (py_int_digits h * 3600 + py_int_digits m * 60 + py_int_digits s)
        + round_to_double (real (py_int_digits f) / 10 ^ length f))"

subsection \<open>\<^verbatim>\<open>SessionManager\<close>: the request history and the rate limit\<close>

text \<open>The fields of \<^verbatim>\<open>SessionManager\<close> that the rate limit reads and writes.  The limit is
  \<open>max_requests_per_second\<close> requests per \<open>max_per\<close> seconds (15 per 30 by default).\<close>

record session_manager =
  request_history :: "real list"
  max_requests_per_second :: int
  max_per :: real

definition new_session_manager :: "int \<Rightarrow> real \<Rightarrow> session_manager" where
  "new_session_manager n per =
     \<lparr>request_history = [], max_requests_per_second = n, max_per = per\<rparr>"

text \<open>\<^verbatim>\<open>add_request\<close>, with the reading of the clock as argument.\<close>

definition add_request :: "real \<Rightarrow> session_manager \<Rightarrow> session_manager" where
  "add_request request_time sm =
     sm\<lparr>request_history := request_history sm @ [request_time]\<rparr>"

text \<open>\<^verbatim>\<open>check_request_rate_limit\<close>, with the reading of the clock as argument.  It returns the
  time slept and the manager afterwards.  \<^verbatim>\<open>valid_requests[0]\<close> raises \<^verbatim>\<open>IndexError\<close> on an
  empty list, \<^verbatim>\<open>time.sleep\<close> raises \<^verbatim>\<open>ValueError\<close> on a negative duration.\<close>

definition check_request_rate_limit ::
  "real \<Rightarrow> session_manager \<Rightarrow> py_error + (real \<times> session_manager)" where
  "check_request_rate_limit current_time sm =
     (let window_start_time = current_time - max_per sm;
          valid_requests = filter (\<lambda>t. t > window_start_time) (request_history sm)
      in if int (length valid_requests) \<ge> max_requests_per_second sm then
           (case valid_requests of
              [] \<Rightarrow> Inl IndexError
            | oldest # _ \<Rightarrow>
                let time_to_wait = oldest + max_per sm - current_time
                in if time_to_wait < 0 then Inl ValueError
                   else Inr (time_to_wait,
                     sm\<lparr>request_history :=
                          filter (\<lambda>t. t > window_start_time + time_to_wait) (request_history sm)\<rparr>))
         else Inr (0, sm))"

text \<open>The recorded timestamps inside the trailing window that ends at \<open>now\<close>.\<close>

definition in_window :: "real \<Rightarrow> session_manager \<Rightarrow> real list" where
  "in_window now sm = filter (\<lambda>t. now - max_per sm < t) (request_history sm)"

text \<open>Sequences of calls on one manager.  Each call carries the time that has passed since the
  previous call returned; a call of \<open>Admit\<close> is \<^verbatim>\<open>check_request_rate_limit\<close>, a call of
  \<open>Record\<close> is \<^verbatim>\<open>add_request\<close>.  \<open>run_calls\<close> threads the clock and the manager through
  the calls and stops at the first exception.\<close>

datatype governor_call = Admit real | Record real

fun run_calls ::
  "governor_call list \<Rightarrow> real \<times> session_manager \<Rightarrow> py_error + (real \<times> session_manager)" where
  "run_calls [] st = Inr st"
| "run_calls (Admit d # cs) (t, sm) =
     (case check_request_rate_limit (t + d) sm of
        Inl e \<Rightarrow> Inl e
      | Inr (slept, sm') \<Rightarrow> run_calls cs (t + d + slept, sm'))"
| "run_calls (Record d # cs) (t, sm) = run_calls cs (t + d, add_request (t + d) sm)"

text \<open>Time does not run backwards, and each request is admitted before it is recorded: a
  \<open>Record\<close> needs an \<open>Admit\<close> since the last \<open>Record\<close>.\<close>

fun admitted_before_recorded :: "bool \<Rightarrow> governor_call list \<Rightarrow> bool" where
  "admitted_before_recorded pending [] = True"
| "admitted_before_recorded pending (Admit d # cs) = (0 \<le> d \<and> admitted_before_recorded True cs)"
| "admitted_before_recorded pending (Record d # cs) =
     (0 \<le> d \<and> pending \<and> admitted_before_recorded False cs)"

fun pending_after :: "bool \<Rightarrow> governor_call list \<Rightarrow> bool" where
  "pending_after pending [] = pending"
| "pending_after pending (Admit d # cs) = pending_after True cs"
| "pending_after pending (Record d # cs) = pending_after False cs"

text \<open>The bound on the window that every call preserves.  After an admission that has not been
  recorded yet (\<open>pending\<close>) the window holds fewer timestamps than the maximum; otherwise it
  holds at most the maximum, or nothing has been recorded at all.\<close>

definition window_ok :: "bool \<Rightarrow> real \<times> session_manager \<Rightarrow> bool" where
  "window_ok pending st =
     (if pending then int (length (in_window (fst st) (snd st))) < max_requests_per_second (snd st)
      else request_history (snd st) = []
           \<or> int (length (in_window (fst st) (snd st))) \<le> max_requests_per_second (snd st))"

subsection \<open>Parsed pages: the part of BeautifulSoup the scraper uses\<close>

text \<open>
  A parsed page is a tree of tags and strings.  A tag has a name, its \<^verbatim>\<open>class\<close> attribute as
  the list of class names (BeautifulSoup keeps this attribute as a list; \<open>None\<close> when the tag
  has none), its other attributes as strings, and its children in document order.
\<close>

datatype node =
    Tag string "string list option" "(string \<times> string) list" "node list"
  | NavigableString string

text \<open>All nodes below a node, in document order (parents before children).\<close>

fun descendants :: "node \<Rightarrow> node list" where
  "descendants (Tag nm cls attrs children) = concat (map (\<lambda>c. c # descendants c) children)"
| "descendants (NavigableString s) = []"

fun space_join :: "string list \<Rightarrow> string" where
  "space_join [] = []"
| "space_join [x] = x"
| "space_join (x # y # ys) = x @ '' '' @ space_join (y # ys)"

text \<open>One entry of an attribute filter such as \<^verbatim>\<open>{'class': ['time', 'swimtimeImportant']}\<close> or
  \<^verbatim>\<open>{'name': 'selectPage'}\<close>: the attribute must be present and equal one of the wanted
  values; for \<^verbatim>\<open>class\<close>, one of the class names or the whole attribute must.\<close>

fun attr_matches :: "node \<Rightarrow> string \<times> string list \<Rightarrow> bool" where
  "attr_matches (Tag nm cls attrs children) (key, wanted) =
     (if key = ''class'' then
        (case cls of
           None \<Rightarrow> False
         | Some names \<Rightarrow> list_ex (\<lambda>w. w \<in> set names \<or> w = space_join names) wanted)
      else
        (case map_of attrs key of
           None \<Rightarrow> False
         | Some v \<Rightarrow> v \<in> set wanted))"
| "attr_matches (NavigableString s) kw = False"

fun matches :: "string \<Rightarrow> (string \<times> string list) list \<Rightarrow> node \<Rightarrow> bool" where
  "matches name filters (Tag nm cls attrs children) =
     (nm = name \<and> list_all (attr_matches (Tag nm cls attrs children)) filters)"
| "matches name filters (NavigableString s) = False"

text \<open>\<^verbatim>\<open>find_all\<close> and \<^verbatim>\<open>find\<close> (here \<open>find_tag\<close>) on a tag or on the page itself.\<close>

definition find_all :: "node \<Rightarrow> string \<Rightarrow> (string \<times> string list) list \<Rightarrow> node list" where
  "find_all n name filters = filter (matches name filters) (descendants n)"

definition find_tag :: "node \<Rightarrow> string \<Rightarrow> (string \<times> string list) list \<Rightarrow> node option" where
  "find_tag n name filters =
     (case find_all n name filters of [] \<Rightarrow> None | x # _ \<Rightarrow> Some x)"

text \<open>\<^verbatim>\<open>find\<close> with a function as filter: the function is called on every tag in document
  order until it returns true, and an exception it raises ends the search.\<close>

fun find_by :: "(node \<Rightarrow> py_error + bool) \<Rightarrow> node list \<Rightarrow> py_error + node option" where
  "find_by p [] = Inr None"
| "find_by p (NavigableString s # ns) = find_by p ns"
| "find_by p (Tag nm cls attrs children # ns) =
     (case p (Tag nm cls attrs children) of
        Inl e \<Rightarrow> Inl e
      | Inr found \<Rightarrow> if found then Inr (Some (Tag nm cls attrs children)) else find_by p ns)"

text \<open>The strings below a node, \<^verbatim>\<open>.text\<close>, and \<^verbatim>\<open>get_text(strip=True)\<close>, which strips each
  string and leaves out the ones that become empty.  \<^verbatim>\<open>str.strip()\<close> removes the white space
  of Unicode; below 256 these are the code points 9 to 13, 28 to 32, 133 and 160.\<close>

fun strings :: "node \<Rightarrow> string list" where
  "strings (Tag nm cls attrs children) = concat (map strings children)"
| "strings (NavigableString s) = [s]"

definition is_space :: "char \<Rightarrow> bool" where
  "is_space c = (char_in 9 13 c \<or> char_in 28 32 c \<or> char_in 133 133 c \<or> char_in 160 160 c)"

definition strip :: "string \<Rightarrow> string" where
  "strip s = rev (dropWhile is_space (rev (dropWhile is_space s)))"

definition text_of :: "node \<Rightarrow> string" where
  "text_of n = concat (strings n)"

definition get_text_strip :: "node \<Rightarrow> string" where
  "get_text_strip n = concat (filter (\<lambda>s. s \<noteq> []) (map strip (strings n)))"

text \<open>\<^verbatim>\<open>sub in s\<close> on strings.\<close>

fun contains :: "string \<Rightarrow> string \<Rightarrow> bool" where
  "contains [] sub = (sub = [])"
| "contains (c # cs) sub = (take (length sub) (c # cs) = sub \<or> contains cs sub)"

text \<open>The same operations on the result of an earlier \<^verbatim>\<open>find\<close>, which is \<^verbatim>\<open>None\<close> when
  nothing was found: a method call on \<^verbatim>\<open>None\<close> raises \<^verbatim>\<open>AttributeError\<close>, a subscript on
  \<^verbatim>\<open>None\<close> raises \<^verbatim>\<open>TypeError\<close>, a subscript with an attribute the tag does not have raises
  \<^verbatim>\<open>KeyError\<close>.\<close>

definition find_on ::
  "node option \<Rightarrow> string \<Rightarrow> (string \<times> string list) list \<Rightarrow> py_error + node option" where
  "find_on x name filters =
     (case x of None \<Rightarrow> Inl AttributeError | Some n \<Rightarrow> Inr (find_tag n name filters))"

definition find_all_on ::
  "node option \<Rightarrow> string \<Rightarrow> (string \<times> string list) list \<Rightarrow> py_error + node list" where
  "find_all_on x name filters =
     (case x of None \<Rightarrow> Inl AttributeError | Some n \<Rightarrow> Inr (find_all n name filters))"

definition get_text_on :: "node option \<Rightarrow> py_error + string" where
  "get_text_on x = (case x of None \<Rightarrow> Inl AttributeError | Some n \<Rightarrow> Inr (get_text_strip n))"

definition text_on :: "node option \<Rightarrow> py_error + string" where
  "text_on x = (case x of None \<Rightarrow> Inl AttributeError | Some n \<Rightarrow> Inr (text_of n))"

fun attr_of :: "node option \<Rightarrow> string \<Rightarrow> py_error + string" where
  "attr_of None key = Inl TypeError"
| "attr_of (Some (Tag nm cls attrs children)) key =
     (case map_of attrs key of None \<Rightarrow> Inl KeyError | Some v \<Rightarrow> Inr v)"
| "attr_of (Some (NavigableString s)) key = Inl TypeError"

subsection \<open>\<^verbatim>\<open>ScraperMixin\<close>: fetching and caching one page\<close>

text \<open>Python values that occur in request parameters and in the records the scraper returns.
  \<^verbatim>\<open>==\<close> compares numbers by value across \<^verbatim>\<open>int\<close>, \<^verbatim>\<open>float\<close> and \<^verbatim>\<open>bool\<close> (\<^verbatim>\<open>1 == 1.0 == True\<close>),
  and everything else within its own type.\<close>

datatype pyval =
  PStr string | PInt int | PFloat real | PBool bool | PList "string list" | PNone

fun py_num :: "pyval \<Rightarrow> real option" where
  "py_num (PInt i) = Some (of_int i)"
| "py_num (PFloat x) = Some x"
| "py_num (PBool b) = Some (if b then 1 else 0)"
| "py_num (PStr s) = None"
| "py_num (PList xs) = None"
| "py_num PNone = None"

definition py_eq :: "pyval \<Rightarrow> pyval \<Rightarrow> bool" where
  "py_eq a b =
     (case py_num a of
        Some x \<Rightarrow> (case py_num b of Some y \<Rightarrow> x = y | None \<Rightarrow> False)
      | None \<Rightarrow> (case py_num b of Some y \<Rightarrow> False | None \<Rightarrow> a = b))"

text \<open>A dictionary is the list of its items in the order of the literal that built it.  Two
  dictionaries are equal in Python when they have the same keys with equal values, whatever
  the order: \<open>dict_eq\<close>.\<close>

type_synonym pydict = "(string \<times> pyval) list"

definition item_eq :: "pyval option \<Rightarrow> pyval option \<Rightarrow> bool" where
  "item_eq x y =
     (case x of
        None \<Rightarrow> y = None
      | Some a \<Rightarrow> (case y of None \<Rightarrow> False | Some b \<Rightarrow> py_eq a b))"

definition dict_eq :: "pydict \<Rightarrow> pydict \<Rightarrow> bool" where
  "dict_eq a b = list_all (\<lambda>k. item_eq (map_of a k) (map_of b k)) (map fst a @ map fst b)"

text \<open>What one GET gives: \<^verbatim>\<open>session.get\<close> raises a \<^verbatim>\<open>RequestException\<close> (with its message),
  or \<^verbatim>\<open>raise_for_status\<close> raises an \<^verbatim>\<open>HTTPError\<close> (with its message), or the body is parsed
  into a page.\<close>

datatype http_response = ConnectionFailed string | HttpStatusError string | Page node

text \<open>The world outside one scraper object: the clock, the remote server (its answer to the
  content of a parameter mapping at a time), the shared \<^verbatim>\<open>SessionManager\<close>, the parameter
  mappings of the GET requests issued so far, the lines printed, and the dictionary objects.
  A dictionary is passed and stored by reference: \<open>objects\<close> gives the present content of
  the dictionary at an address, and \<open>next_object\<close> is the first address not in use.\<close>

record world =
  clock :: real
  server :: "pydict \<Rightarrow> real \<Rightarrow> http_response"
  manager :: session_manager
  requests_sent :: "pydict list"
  stdout :: "string list"
  objects :: "nat \<Rightarrow> pydict"
  next_object :: nat

text \<open>A dictionary literal makes a new object; the caller may later change any object.\<close>

definition new_dict :: "pydict \<Rightarrow> world \<Rightarrow> nat \<times> world" where
  "new_dict d w =
     (next_object w,
      w\<lparr>objects := (objects w)(next_object w := d), next_object := Suc (next_object w)\<rparr>)"

definition caller_sets :: "(nat \<Rightarrow> pydict) \<Rightarrow> 'a \<times> world \<Rightarrow> 'a \<times> world" where
  "caller_sets objs st = (fst st, (snd st)\<lparr>objects := objs\<rparr>)"

text \<open>The fields of \<^verbatim>\<open>ScraperMixin\<close>; the subclasses extend this record.  \<open>last_request\<close>
  holds the address of the dictionary passed to the last call that returned.\<close>

record scraper =
  last_request :: "nat option"
  page_content :: "node option"
  update_interval :: real
  last_updated :: "real option"

definition new_scraper :: "real \<Rightarrow> scraper" where
  "new_scraper interval =
     \<lparr>last_request = None, page_content = None, update_interval = interval, last_updated = None\<rparr>"

definition print_error :: "string \<Rightarrow> world \<Rightarrow> world" where
  "print_error msg w = w\<lparr>stdout := stdout w @ [''Error fetching data: '' @ msg]\<rparr>"

text \<open>\<^verbatim>\<open>_update_page_content\<close>, with the address of \<^verbatim>\<open>params\<close>.  An exception of the rate
  limit is not a \<^verbatim>\<open>RequestException\<close> and leaves the method; a \<^verbatim>\<open>RequestException\<close> is
  caught and printed.  The page, the time stamp and the request history are written before the
  body is looked for.\<close>

definition update_page_content ::
  "nat \<Rightarrow> 'a scraper_scheme \<times> world \<Rightarrow> (py_error + unit) \<times> 'a scraper_scheme \<times> world" where
  "update_page_content params st =
     (case st of (self, w) \<Rightarrow>
        (case check_request_rate_limit (clock w) (manager w) of
           Inl e \<Rightarrow> (Inl e, self, w)
         | Inr (slept, sm) \<Rightarrow>
             let w1 = w\<lparr>clock := clock w + slept, manager := sm,
                        requests_sent := requests_sent w @ [objects w params]\<rparr>
             in (case server w (objects w params) (clock w1) of
                   ConnectionFailed msg \<Rightarrow> (Inr (), self, print_error msg w1)
                 | HttpStatusError msg \<Rightarrow> (Inr (), self, print_error msg w1)
                 | Page doc \<Rightarrow>
                     let self1 = self\<lparr>page_content := Some doc, last_updated := Some (clock w1)\<rparr>;
                         w2 = w1\<lparr>manager := add_request (clock w1) sm\<rparr>
                     in if find_tag doc ''body'' [] = None
                        then (Inr (), self1, print_error ''Empty response'' w2)
                        else (Inr (), self1, w2))))"

text \<open>\<^verbatim>\<open>_get_page_content\<close>, with the address of \<^verbatim>\<open>params\<close>.  \<^verbatim>\<open>params != self.last_request\<close>
  compares the dictionary passed with the dictionary stored, both as they are now; nothing
  stored yet is \<^verbatim>\<open>None\<close>, which differs from every dictionary.\<close>

definition needs_update :: "nat \<Rightarrow> 'a scraper_scheme \<times> world \<Rightarrow> bool" where
  "needs_update params st =
     (case st of (self, w) \<Rightarrow>
        (case last_updated self of
           None \<Rightarrow> True
         | Some t \<Rightarrow>
             (case last_request self of
                None \<Rightarrow> True
              | Some q \<Rightarrow> \<not> dict_eq (objects w params) (objects w q))
             \<or> clock w - t > update_interval self))"

definition get_page_content ::
  "nat \<Rightarrow> 'a scraper_scheme \<times> world
     \<Rightarrow> (py_error + node option) \<times> 'a scraper_scheme \<times> world" where
  "get_page_content params st =
     (case (if needs_update params st then update_page_content params st else (Inr (), st)) of
        (Inl e, st') \<Rightarrow> (Inl e, st')
      | (Inr u, self, w) \<Rightarrow>
          (Inr (page_content self), self\<lparr>last_request := Some params\<rparr>, w))"

text \<open>A method builds its parameters with a dictionary literal and passes the new object.\<close>

definition get_page_for ::
  "pydict \<Rightarrow> 'a scraper_scheme \<times> world
     \<Rightarrow> (py_error + node option) \<times> 'a scraper_scheme \<times> world" where
  "get_page_for d st =
     (case new_dict d (snd st) of (params, w) \<Rightarrow> get_page_content params (fst st, w))"

text \<open>The rate limit is configured with a positive maximum (the default is 15): then
  \<^verbatim>\<open>check_request_rate_limit\<close> raises nothing.\<close>

definition rate_limit_ok :: "world \<Rightarrow> bool" where
  "rate_limit_ok w = (0 < max_requests_per_second (manager w))"

text \<open>Time passing between two calls.\<close>

definition advance :: "real \<Rightarrow> 'a \<times> world \<Rightarrow> 'a \<times> world" where
  "advance d st = (fst st, (snd st)\<lparr>clock := clock (snd st) + d\<rparr>)"

subsection \<open>The extractors\<close>

text \<open>Library functions the extractors call, taken as parameters, so that every theorem
  holds whatever they compute:
  \<open>parse_qs_query url\<close> is \<^verbatim>\<open>parse_qs(urlparse(url).query)\<close> as a list of keys with their values,
  \<open>normalize_NFKD\<close> is \<^verbatim>\<open>unicodedata.normalize("NFKD", _)\<close>, \<open>findall_split1\<close> is
  \<^verbatim>\<open>re.findall\<close> with the pattern of the split times, and \<open>int_of_str\<close> is \<^verbatim>\<open>int\<close> on a
  string (\<open>None\<close> where it raises \<^verbatim>\<open>ValueError\<close>).\<close>

record pylib =
  parse_qs_query :: "string \<Rightarrow> (string \<times> string list) list"
  normalize_NFKD :: "string \<Rightarrow> string"
  findall_split1 :: "string \<Rightarrow> string list"
  int_of_str :: "string \<Rightarrow> int option"

text \<open>\<^verbatim>\<open>parse_qs(urlparse(url).query)[key][0]\<close> and \<^verbatim>\<open>int(s)\<close>.\<close>

definition query_first :: "pylib \<Rightarrow> string \<Rightarrow> string \<Rightarrow> py_error + string" where
  "query_first L url key =
     (case map_of (parse_qs_query L url) key of
        None \<Rightarrow> Inl KeyError
      | Some vs \<Rightarrow> py_index vs 0)"

definition py_int :: "pylib \<Rightarrow> string \<Rightarrow> py_error + int" where
  "py_int L s = (case int_of_str L s of None \<Rightarrow> Inl ValueError | Some i \<Rightarrow> Inr i)"

text \<open>A \<^verbatim>\<open>for\<close> loop that appends to a list: each round gives the records it appends, and an
  exception in a round ends the loop.\<close>

fun for_each :: "('a \<Rightarrow> py_error + 'b list) \<Rightarrow> 'a list \<Rightarrow> py_error + 'b list" where
  "for_each body [] = Inr []"
| "for_each body (x # xs) =
     (case body x of
        Inl e \<Rightarrow> Inl e
      | Inr ys \<Rightarrow> (case for_each body xs of Inl e \<Rightarrow> Inl e | Inr zs \<Rightarrow> Inr (ys @ zs)))"

text \<open>The \<^verbatim>\<open>try\<close> block at the start of every extractor: \<^verbatim>\<open>AttributeError\<close> is caught (the
  result \<open>None\<close> here, after which the method returns its empty value), any other exception
  leaves the method.\<close>

definition try_locate :: "py_error + 'a \<Rightarrow> py_error + 'a option" where
  "try_locate r =
     (case r of
        Inl e \<Rightarrow> if e = AttributeError then Inr None else Inl e
      | Inr x \<Rightarrow> Inr (Some x))"

subsubsection \<open>\<^verbatim>\<open>Athlete\<close>\<close>

record athlete = scraper +
  athlete_id :: pyval

definition personal_best_row :: "pylib \<Rightarrow> node \<Rightarrow> py_error + pydict list" where
  "personal_best_row L row =
     (let event_cell = find_tag row ''td'' [(''class'', [''event''])] in
      then_do (find_on event_cell ''a'' []) (\<lambda>event_link.
      then_do (get_text_on event_link) (\<lambda>event_name.
      let course_cell = find_tag row ''td'' [(''class'', [''course''])] in
      then_do (get_text_on course_cell) (\<lambda>course_length.
      let time_cell = find_tag row ''td'' [(''class'', [''time'', ''swimtimeImportant''])] in
      then_do (get_text_on time_cell) (\<lambda>time_text.
      then_do (convert_time time_text) (\<lambda>time.
      then_do (find_on time_cell ''a'' []) (\<lambda>time_link.
      then_do (attr_of time_link ''href'') (\<lambda>result_url.
      then_do (query_first L result_url ''id'') (\<lambda>id_text.
      then_do (py_int L id_text) (\<lambda>result_id.
      then_do (get_text_on (find_tag row ''td'' [(''class'', [''code''])])) (\<lambda>fina_points.
      Inr [[(''result_id'', PInt result_id), (''event_name'', PStr event_name),
            (''course_length'', PStr course_length), (''time'', PFloat time),
            (''FINA Points'', PStr fina_points)]])))))))))))"

definition list_personal_bests_from :: "pylib \<Rightarrow> py_error + node option \<Rightarrow> py_error + pydict list" where
  "list_personal_bests_from L got =
     (case try_locate (then_do got (\<lambda>soup. find_on soup ''table'' [(''class'', [''athleteBest''])])) of
        Inl e \<Rightarrow> Inl e
      | Inr None \<Rightarrow> Inr []
      | Inr (Some table) \<Rightarrow>
          then_do (find_all_on table ''tr'' [(''class'', [''athleteBest0'', ''athleteBest1''])])
            (for_each (personal_best_row L)))"

definition athlete_list_personal_bests ::
  "pylib \<Rightarrow> pyval \<Rightarrow> athlete \<times> world \<Rightarrow> (py_error + pydict list) \<times> athlete \<times> world" where
  "athlete_list_personal_bests L season st =
     (case get_page_for [(''page'', PStr ''athleteDetail''),
                             (''athleteId'', athlete_id (fst st)), (''pbest'', season)] st of
        (got, st') \<Rightarrow> (list_personal_bests_from L got, st'))"

definition athlete_meet_row :: "pylib \<Rightarrow> node \<Rightarrow> py_error + pydict list" where
  "athlete_meet_row L row =
     (let date_cell = find_tag row ''td'' [(''class'', [''date''])] in
      then_do (get_text_on date_cell) (\<lambda>date_text.
      let meet_date = normalize_NFKD L date_text;
          city_cell = find_tag row ''td'' [(''class'', [''city''])] in
      then_do (find_on city_cell ''a'' []) (\<lambda>city_link.
      then_do (get_text_on city_link) (\<lambda>meet_city.
      then_do (attr_of city_link ''title'') (\<lambda>meet_name.
      then_do (attr_of city_link ''href'') (\<lambda>meet_url.
      then_do (query_first L meet_url ''meetId'') (\<lambda>id_text.
      then_do (py_int L id_text) (\<lambda>meet_id.
      Inr [[(''meet_id'', PInt meet_id), (''meet_date'', PStr meet_date),
            (''meet_city'', PStr meet_city), (''meet_name'', PStr meet_name)]]))))))))"

definition athlete_list_meets_from :: "pylib \<Rightarrow> py_error + node option \<Rightarrow> py_error + pydict list" where
  "athlete_list_meets_from L got =
     (case try_locate (then_do got (\<lambda>soup. find_on soup ''table'' [(''class'', [''athleteMeet''])])) of
        Inl e \<Rightarrow> Inl e
      | Inr None \<Rightarrow> Inr []
      | Inr (Some table) \<Rightarrow>
          then_do (find_all_on table ''tr'' [(''class'', [''athleteMeet0'', ''athleteMeet1''])])
            (for_each (athlete_meet_row L)))"

definition athlete_list_meets ::
  "pylib \<Rightarrow> athlete \<times> world \<Rightarrow> (py_error + pydict list) \<times> athlete \<times> world" where
  "athlete_list_meets L st =
     (case get_page_for [(''page'', PStr ''athleteDetail''),
                             (''athleteId'', athlete_id (fst st)),
                             (''athletePage'', PStr ''MEET'')] st of
        (got, st') \<Rightarrow> (athlete_list_meets_from L got, st'))"

subsubsection \<open>\<^verbatim>\<open>Meet\<close>\<close>

record meet = scraper +
  meet_id :: pyval

definition club_row :: "pylib \<Rightarrow> node \<Rightarrow> py_error + pydict list" where
  "club_row L row =
     (let club_cell = find_tag row ''td'' [(''class'', [''club''])] in
      then_do (find_on club_cell ''a'' []) (\<lambda>club_link.
      then_do (attr_of club_link ''href'') (\<lambda>club_url.
      then_do (query_first L club_url ''clubId'') (\<lambda>club_id.
      then_do (get_text_on club_link) (\<lambda>club_name.
      Inr [[(''club_id'', PStr club_id), (''club_name'', PStr club_name)]])))))"

definition list_clubs_from :: "pylib \<Rightarrow> py_error + node option \<Rightarrow> py_error + pydict list" where
  "list_clubs_from L got =
     (case try_locate (then_do got (\<lambda>soup. find_on soup ''table'' [(''class'', [''meetSearch''])])) of
        Inl e \<Rightarrow> Inl e
      | Inr None \<Rightarrow> Inr []
      | Inr (Some table) \<Rightarrow>
          then_do (find_all_on table ''tr'' [(''class'', [''meetResult0'', ''meetResult1''])])
            (for_each (club_row L)))"

definition meet_list_clubs ::
  "pylib \<Rightarrow> meet \<times> world \<Rightarrow> (py_error + pydict list) \<times> meet \<times> world" where
  "meet_list_clubs L st =
     (case get_page_for [(''page'', PStr ''meetDetail''), (''meetId'', meet_id (fst st))] st of
        (got, st') \<Rightarrow> (list_clubs_from L got, st'))"

text \<open>The filter function of \<^verbatim>\<open>list_events\<close>:
  \<^verbatim>\<open>tag.name == 'td' and tag['class'][0] == 'navigation' and search_text in tag.text\<close>.\<close>

fun navigation_menu :: "string \<Rightarrow> node \<Rightarrow> py_error + bool" where
  "navigation_menu search_text (NavigableString s) = Inr False"
| "navigation_menu search_text (Tag nm cls attrs children) =
     (if nm \<noteq> ''td'' then Inr False
      else (case cls of
              None \<Rightarrow> Inl KeyError
            | Some [] \<Rightarrow> Inl IndexError
            | Some (c # cs) \<Rightarrow>
                Inr (c = ''navigation''
                     \<and> contains (text_of (Tag nm cls attrs children)) search_text)))"

definition find_menu :: "node option \<Rightarrow> string \<Rightarrow> py_error + node option" where
  "find_menu table search_text =
     (case table of
        None \<Rightarrow> Inl AttributeError
      | Some t \<Rightarrow> find_by (navigation_menu search_text) (descendants t))"

definition event_item :: "string \<Rightarrow> node \<Rightarrow> py_error + pydict list" where
  "event_item gender item =
     then_do (attr_of (Some item) ''value'') (\<lambda>v.
       if v \<noteq> ''0''
       then Inr [[(''event_id'', PStr v), (''event_gender'', PStr gender),
                  (''event_name'', PStr (get_text_strip item))]]
       else Inr [])"

definition list_events_from :: "py_error + node option \<Rightarrow> py_error + pydict list" where
  "list_events_from got =
     (case try_locate (then_do got (\<lambda>soup. find_on soup ''table'' [(''class'', [''navigation''])])) of
        Inl e \<Rightarrow> Inl e
      | Inr None \<Rightarrow> Inr []
      | Inr (Some table) \<Rightarrow>
          then_do (find_menu table ''Men's events: '') (\<lambda>menu.
          then_do (find_all_on menu ''option'' []) (\<lambda>items.
          then_do (for_each (event_item ''1'') items) (\<lambda>men.
          then_do (find_menu table ''Women's events: '') (\<lambda>menu'.
          then_do (find_all_on menu' ''option'' []) (\<lambda>items'.
          then_do (for_each (event_item ''2'') items') (\<lambda>women.
          Inr (men @ women))))))))"

definition meet_list_events ::
  "meet \<times> world \<Rightarrow> (py_error + pydict list) \<times> meet \<times> world" where
  "meet_list_events st =
     (case get_page_for [(''page'', PStr ''meetDetail''), (''meetId'', meet_id (fst st))] st of
        (got, st') \<Rightarrow> (list_events_from got, st'))"

text \<open>The result tables of a page, in document order: \<^verbatim>\<open>list_races\<close> and \<^verbatim>\<open>list_results\<close>
  both start from this list.\<close>

definition result_tables :: "node \<Rightarrow> node list" where
  "result_tables soup = find_all soup ''table'' [(''class'', [''meetResult''])]"

definition race_name_of :: "pylib \<Rightarrow> node \<Rightarrow> py_error + string" where
  "race_name_of L table =
     (let head = find_tag table ''tr'' [(''class'', [''meetResultHead''])] in
      then_do (find_on head ''th'' [(''class'', [''event''])]) (\<lambda>name_cell.
      then_do (get_text_on name_cell) (\<lambda>name_text.
      Inr (normalize_NFKD L name_text))))"

definition race_entry :: "pylib \<Rightarrow> nat \<times> node \<Rightarrow> py_error + pydict list" where
  "race_entry L it =
     (case it of (i, table) \<Rightarrow>
        then_do (race_name_of L table) (\<lambda>name.
        Inr [[(''race_id'', PInt (int i + 1)), (''race_name'', PStr name)]]))"

definition list_races_from :: "pylib \<Rightarrow> py_error + node option \<Rightarrow> py_error + pydict list" where
  "list_races_from L got =
     (case try_locate (then_do got (\<lambda>soup. find_all_on soup ''table'' [(''class'', [''meetResult''])])) of
        Inl e \<Rightarrow> Inl e
      | Inr None \<Rightarrow> Inr []
      | Inr (Some tables) \<Rightarrow> for_each (race_entry L) (zip [0..<length tables] tables))"

definition meet_list_races ::
  "pylib \<Rightarrow> pyval \<Rightarrow> pyval \<Rightarrow> meet \<times> world \<Rightarrow> (py_error + pydict list) \<times> meet \<times> world" where
  "meet_list_races L event_id gender st =
     (case get_page_for [(''page'', PStr ''meetDetail''), (''meetId'', meet_id (fst st)),
                             (''gender'', gender), (''styleId'', event_id)] st of
        (got, st') \<Rightarrow> (list_races_from L got, st'))"

definition result_row :: "pylib \<Rightarrow> node \<Rightarrow> py_error + pydict list" where
  "result_row L row =
     (let name_cell = find_tag row ''td'' [(''class'', [''name''])] in
      then_do (find_on name_cell ''a'' []) (\<lambda>name_link.
      then_do (get_text_on name_link) (\<lambda>name.
      then_do (attr_of name_link ''href'') (\<lambda>name_url.
      then_do (query_first L name_url ''athleteId'') (\<lambda>athlete_id.
      then_do (py_index (find_all row ''td'' [(''class'', [''name''])]) 1) (\<lambda>club_cell.
      then_do (get_text_on (find_tag club_cell ''a'' [])) (\<lambda>club_name.
      let time_cell = find_tag row ''td'' [(''class'', [''swimtime''])] in
      then_do (find_on time_cell ''a'' []) (\<lambda>time_link.
      then_do (get_text_on time_link) (\<lambda>time.
      then_do (case attr_of time_link ''onmouseover'' of
                 Inl e \<Rightarrow> if e = KeyError then Inr [] else Inl e
               | Inr v \<Rightarrow> Inr v) (\<lambda>split_times_rough.
      let split_times = findall_split1 L split_times_rough in
      then_do (attr_of time_link ''href'') (\<lambda>result_url.
      then_do (query_first L result_url ''id'') (\<lambda>result_id.
      Inr [[(''result_id'', PStr result_id), (''athlete_id'', PStr athlete_id),
            (''name'', PStr name), (''club_name'', PStr club_name), (''time'', PStr time),
            (''split_times'', PList split_times)]]))))))))))))"

definition results_of_table :: "pylib \<Rightarrow> node \<Rightarrow> py_error + pydict list" where
  "results_of_table L table =
     for_each (result_row L) (find_all table ''tr'' [(''class'', [''meetResult0'', ''meetResult1''])])"

definition list_results_from ::
  "pylib \<Rightarrow> int \<Rightarrow> py_error + node option \<Rightarrow> py_error + pydict list" where
  "list_results_from L race_id got =
     (case try_locate (then_do got (\<lambda>soup. find_all_on soup ''table'' [(''class'', [''meetResult''])])) of
        Inl e \<Rightarrow> Inl e
      | Inr None \<Rightarrow> Inr []
      | Inr (Some tables) \<Rightarrow> then_do (py_index tables (race_id - 1)) (results_of_table L))"

definition meet_list_results ::
  "pylib \<Rightarrow> pyval \<Rightarrow> pyval \<Rightarrow> int \<Rightarrow> meet \<times> world
     \<Rightarrow> (py_error + pydict list) \<times> meet \<times> world" where
  "meet_list_results L event_id gender race_id st =
     (case get_page_for [(''page'', PStr ''meetDetail''), (''meetId'', meet_id (fst st)),
                             (''gender'', gender), (''styleId'', event_id)] st of
        (got, st') \<Rightarrow> (list_results_from L race_id got, st'))"

subsubsection \<open>\<^verbatim>\<open>Result\<close>\<close>

record result = scraper +
  result_id :: pyval

definition get_time_from :: "py_error + node option \<Rightarrow> py_error + string option" where
  "get_time_from got =
     try_locate (then_do got (\<lambda>soup.
       then_do (find_on soup ''td'' [(''class'', [''swimtimeLarge''])]) text_on))"

definition result_get_time ::
  "result \<times> world \<Rightarrow> (py_error + string option) \<times> result \<times> world" where
  "result_get_time st =
     (case get_page_for [(''page'', PStr ''resultDetail''), (''id'', result_id (fst st))] st of
        (got, st') \<Rightarrow> (get_time_from got, st'))"

subsubsection \<open>\<^verbatim>\<open>Meets\<close>\<close>

definition period_item :: "pylib \<Rightarrow> node \<Rightarrow> py_error + pydict list" where
  "period_item L item =
     then_do (attr_of (Some item) ''value'') (\<lambda>v.
       if v \<noteq> ''RECENT'' \<and> v \<noteq> ''BYTYPE''
       then Inr [[(''period_id'', PStr v),
                  (''period_name'', PStr (normalize_NFKD L (get_text_strip item)))]]
       else Inr [])"

definition list_time_periods_from :: "pylib \<Rightarrow> py_error + node option \<Rightarrow> py_error + pydict list" where
  "list_time_periods_from L got =
     (case try_locate (then_do got (\<lambda>soup. find_on soup ''select'' [(''name'', [''selectPage''])])) of
        Inl e \<Rightarrow> Inl e
      | Inr None \<Rightarrow> Inr []
      | Inr (Some menu) \<Rightarrow> then_do (find_all_on menu ''option'' []) (for_each (period_item L)))"

definition meets_list_time_periods ::
  "pylib \<Rightarrow> scraper \<times> world \<Rightarrow> (py_error + pydict list) \<times> scraper \<times> world" where
  "meets_list_time_periods L st =
     (case get_page_for [(''page'', PStr ''meetSelect''), (''nationId'', PStr ''0''),
                             (''selectPage'', PStr ''RECENT'')] st of
        (got, st') \<Rightarrow> (list_time_periods_from L got, st'))"

definition nation_item :: "pylib \<Rightarrow> node \<Rightarrow> py_error + pydict list" where
  "nation_item L item =
     then_do (attr_of (Some item) ''value'') (\<lambda>v.
       if v \<noteq> ''$$$''
       then Inr [[(''nation_id'', PStr v),
                  (''nation_name'', PStr (normalize_NFKD L (get_text_strip item)))]]
       else Inr [])"

definition list_nations_from :: "pylib \<Rightarrow> py_error + node option \<Rightarrow> py_error + pydict list" where
  "list_nations_from L got =
     (case try_locate (then_do got (\<lambda>soup. find_on soup ''select'' [(''name'', [''nationId''])])) of
        Inl e \<Rightarrow> Inl e
      | Inr None \<Rightarrow> Inr []
      | Inr (Some menu) \<Rightarrow> then_do (find_all_on menu ''option'' []) (for_each (nation_item L)))"

definition meets_list_nations ::
  "pylib \<Rightarrow> scraper \<times> world \<Rightarrow> (py_error + pydict list) \<times> scraper \<times> world" where
  "meets_list_nations L st =
     (case get_page_for [(''page'', PStr ''meetSelect''), (''nationId'', PStr ''0''),
                             (''selectPage'', PStr ''RECENT'')] st of
        (got, st') \<Rightarrow> (list_nations_from L got, st'))"

definition meet_summary_row :: "pylib \<Rightarrow> node \<Rightarrow> py_error + pydict list" where
  "meet_summary_row L row =
     (let date_cell = find_tag row ''td'' [(''class'', [''date''])] in
      then_do (get_text_on date_cell) (\<lambda>date_text.
      let meet_date = normalize_NFKD L date_text;
          city_cell = find_tag row ''td'' [(''class'', [''city''])] in
      then_do (find_on city_cell ''a'' []) (\<lambda>city_link.
      then_do (get_text_on city_link) (\<lambda>city_text.
      let meet_city = normalize_NFKD L city_text in
      then_do (attr_of city_link ''href'') (\<lambda>meet_url.
      then_do (py_index (find_all row ''td'' [(''class'', [''name''])]) 1) (\<lambda>name_cell.
      then_do (get_text_on (find_tag name_cell ''a'' [])) (\<lambda>meet_name.
      let course_cell = find_tag row ''td'' [(''class'', [''course''])] in
      then_do (get_text_on course_cell) (\<lambda>course_length.
      then_do (query_first L meet_url ''meetId'') (\<lambda>meet_id.
      Inr [[(''meet_id'', PStr meet_id), (''meet_date'', PStr meet_date),
            (''meet_city'', PStr meet_city), (''meet_name'', PStr meet_name),
            (''course_length'', PStr course_length)]])))))))))"

definition meets_of_table :: "pylib \<Rightarrow> node \<Rightarrow> py_error + pydict list" where
  "meets_of_table L table =
     for_each (meet_summary_row L) (find_all table ''tr'' [(''class'', [''meetSearch0'', ''meetSearch1''])])"

definition meets_list_meets_from :: "pylib \<Rightarrow> py_error + node option \<Rightarrow> py_error + pydict list" where
  "meets_list_meets_from L got =
     (case try_locate (then_do got (\<lambda>soup. find_all_on soup ''table'' [(''class'', [''meetSearch''])])) of
        Inl e \<Rightarrow> Inl e
      | Inr None \<Rightarrow> Inr []
      | Inr (Some tables) \<Rightarrow> for_each (meets_of_table L) tables)"

definition meets_list_meets ::
  "pylib \<Rightarrow> pyval \<Rightarrow> pyval \<Rightarrow> scraper \<times> world \<Rightarrow> (py_error + pydict list) \<times> scraper \<times> world" where
  "meets_list_meets L nation_id time_period_id st =
     (case get_page_for [(''page'', PStr ''meetSelect''), (''nationId'', nation_id),
                             (''selectPage'', time_period_id)] st of
        (got, st') \<Rightarrow> (meets_list_meets_from L got, st'))"

subsubsection \<open>\<^verbatim>\<open>Club\<close>\<close>

record club = scraper +
  club_id :: pyval

definition athlete_row :: "pylib \<Rightarrow> node \<Rightarrow> py_error + pydict list" where
  "athlete_row L row =
     (let name_cell = find_tag row ''td'' [(''class'', [''name''])] in
      then_do (find_on name_cell ''a'' []) (\<lambda>name_link.
      then_do (get_text_on name_link) (\<lambda>name.
      then_do (attr_of name_link ''href'') (\<lambda>athlete_url.
      then_do (query_first L athlete_url ''athleteId'') (\<lambda>athlete_id.
      Inr [[(''athlete_id'', PStr athlete_id), (''athlete_name'', PStr name)]])))))"

definition athletes_of_table :: "pylib \<Rightarrow> node \<Rightarrow> py_error + pydict list" where
  "athletes_of_table L table =
     for_each (athlete_row L)
       (find_all table ''tr'' [(''class'', [''athleteSearch0'', ''athleteSearch1''])])"

definition list_athletes_from :: "pylib \<Rightarrow> py_error + node option \<Rightarrow> py_error + pydict list" where
  "list_athletes_from L got =
     (case try_locate (then_do got (\<lambda>soup. find_all_on soup ''table'' [(''class'', [''athleteList''])])) of
        Inl e \<Rightarrow> Inl e
      | Inr None \<Rightarrow> Inr []
      | Inr (Some tables) \<Rightarrow> for_each (athletes_of_table L) tables)"

text \<open>\<^verbatim>\<open>list_athletes\<close> indexes the list of gender names before it fetches anything.\<close>

definition club_list_athletes ::
  "pylib \<Rightarrow> int \<Rightarrow> club \<times> world \<Rightarrow> (py_error + pydict list) \<times> club \<times> world" where
  "club_list_athletes L gender st =
     (case py_index [''CURRENT'', ''ALL_MEN'', ''All_WOMEN''] gender of
        Inl e \<Rightarrow> (Inl e, st)
      | Inr athlete_gender \<Rightarrow>
          (case get_page_for [(''page'', PStr ''rankingDetail''), (''clubId'', club_id (fst st)),
                                  (''stroke'', PStr ''9''),
                                  (''athleteGender'', PStr athlete_gender)] st of
             (got, st') \<Rightarrow> (list_athletes_from L got, st')))"

subsection \<open>Concrete pages, library functions, servers and objects\<close>

text \<open>A page with a body and no table, a page without a body, and a meet page with two
  result tables (heats, then final; the final has one result row).\<close>

definition page_hello :: node where
  "page_hello =
     Tag ''[document]'' None []
       [Tag ''html'' None [] [Tag ''body'' None [] [NavigableString ''Hello, world!'']]]"

definition page_empty :: node where
  "page_empty = Tag ''[document]'' None [] []"

definition heats_table :: node where
  "heats_table =
     Tag ''table'' (Some [''meetResult'']) []
       [Tag ''tr'' (Some [''meetResultHead'']) []
          [Tag ''th'' (Some [''event'']) [] [NavigableString ''Heats'']]]"

definition final_table :: node where
  "final_table =
     Tag ''table'' (Some [''meetResult'']) []
       [Tag ''tr'' (Some [''meetResultHead'']) []
          [Tag ''th'' (Some [''event'']) [] [NavigableString '' Final '']],
        Tag ''tr'' (Some [''meetResult0'']) []
          [Tag ''td'' (Some [''name'']) []
             [Tag ''a'' None [(''href'', ''?page=athleteDetail&athleteId=7'')]
                [NavigableString ''DOE, Jo'']],
           Tag ''td'' (Some [''name'']) []
             [Tag ''a'' None [(''href'', ''?page=clubDetail&clubId=3'')] [NavigableString ''Club A'']],
           Tag ''td'' (Some [''swimtime'']) []
             [Tag ''a'' None [(''href'', ''?page=resultDetail&id=9'')] [NavigableString ''28.44'']]]]"

definition page_two_races :: node where
  "page_two_races =
     Tag ''[document]'' None []
       [Tag ''html'' None [] [Tag ''body'' None [] [heats_table, final_table]]]"

text \<open>
  Library functions for the examples.  \<open>plain_parse_qs\<close> is what
  \<^verbatim>\<open>parse_qs(urlparse(url).query)\<close> gives on a URL of printable ASCII characters without
  \<^verbatim>\<open>%\<close> and \<^verbatim>\<open>;\<close>: the query is the text after the first \<^verbatim>\<open>?\<close> and before any \<^verbatim>\<open>#\<close>, it is
  split at \<^verbatim>\<open>&\<close>, each piece at its first \<^verbatim>\<open>=\<close>, a piece without \<^verbatim>\<open>=\<close> or with an empty
  value is left out, \<^verbatim>\<open>+\<close> stands for a blank, and the values of one name are collected in
  order.  \<open>plain_int\<close> is \<^verbatim>\<open>int\<close> on a string of digits.  An ASCII string is its own NFKD
  form, and the pattern of the split times matches nowhere in the empty string, the only
  string it is applied to on the example pages.
\<close>

fun split_on :: "char \<Rightarrow> string \<Rightarrow> string list" where
  "split_on c [] = [[]]"
| "split_on c (x # xs) =
     (if x = c then [] # split_on c xs
      else (case split_on c xs of [] \<Rightarrow> [[x]] | p # ps \<Rightarrow> (x # p) # ps))"

definition url_query :: "string \<Rightarrow> string" where
  "url_query url =
     (case dropWhile (\<lambda>c. c \<noteq> CHR ''?'') (takeWhile (\<lambda>c. c \<noteq> CHR ''#'') url) of
        [] \<Rightarrow> []
      | q # qs \<Rightarrow> qs)"

definition plus_to_blank :: "string \<Rightarrow> string" where
  "plus_to_blank s = map (\<lambda>c. if c = CHR ''+'' then CHR '' '' else c) s"

definition name_value :: "string \<Rightarrow> (string \<times> string) list" where
  "name_value piece =
     (case dropWhile (\<lambda>c. c \<noteq> CHR ''='') piece of
        [] \<Rightarrow> []
      | e # v \<Rightarrow>
          if v = [] then []
          else [(plus_to_blank (takeWhile (\<lambda>c. c \<noteq> CHR ''='') piece), plus_to_blank v)])"

definition group_values :: "(string \<times> string) list \<Rightarrow> (string \<times> string list) list" where
  "group_values pairs =
     map (\<lambda>k. (k, map snd (filter (\<lambda>p. fst p = k) pairs))) (remdups (map fst pairs))"

definition plain_parse_qs :: "string \<Rightarrow> (string \<times> string list) list" where
  "plain_parse_qs url =
     group_values (concat (map name_value (split_on (CHR ''&'') (url_query url))))"

definition plain_int :: "string \<Rightarrow> int option" where
  "plain_int s = (if s \<noteq> [] \<and> list_all is_digit s then Some (int (py_int_digits s)) else None)"

definition lib0 :: pylib where
  "lib0 = \<lparr>parse_qs_query = plain_parse_qs,
           normalize_NFKD = (\<lambda>s. s),
           findall_split1 = (\<lambda>s. []),
           int_of_str = plain_int\<rparr>"

text \<open>A server that is down, a server that always answers with one page, and a server that
  answers with a page before a time and is down from then on.\<close>

definition server_down :: "pydict \<Rightarrow> real \<Rightarrow> http_response" where
  "server_down ps t = ConnectionFailed ''connection refused''"

definition server_page :: "node \<Rightarrow> pydict \<Rightarrow> real \<Rightarrow> http_response" where
  "server_page doc ps t = Page doc"

definition server_until :: "real \<Rightarrow> node \<Rightarrow> pydict \<Rightarrow> real \<Rightarrow> http_response" where
  "server_until limit doc ps t = (if t < limit then Page doc else ConnectionFailed ''connection refused'')"

text \<open>Two parameter mappings, the first once more with its items in another order and the
  number as a float, and a world at time 0 in which the first two are the dictionaries at the
  addresses 0 and 1, with the default rate limit.\<close>

definition params0 :: pydict where
  "params0 = [(''page'', PStr ''meetDetail''), (''meetId'', PInt 642564)]"

definition params1 :: pydict where
  "params1 = [(''page'', PStr ''meetDetail''), (''meetId'', PInt 642565)]"

definition params0_again :: pydict where
  "params0_again = [(''meetId'', PFloat 642564), (''page'', PStr ''meetDetail'')]"

definition world0 :: "(pydict \<Rightarrow> real \<Rightarrow> http_response) \<Rightarrow> world" where
  "world0 srv = \<lparr>clock = 0, server = srv, manager = new_session_manager 15 30,
                 requests_sent = [], stdout = [],
                 objects = (\<lambda>a. if a = 0 then params0 else if a = 1 then params1 else []),
                 next_object = 2\<rparr>"

definition athlete0 :: athlete where
  "athlete0 = scraper.extend (new_scraper 60) (athlete.fields (PInt 4787911))"

definition meet0 :: meet where
  "meet0 = scraper.extend (new_scraper 60) (meet.fields (PInt 642564))"

definition result0 :: result where
  "result0 = scraper.extend (new_scraper 60) (result.fields (PInt 345678))"

definition club0 :: club where
  "club0 = scraper.extend (new_scraper 60) (club.fields (PStr ''65929''))"

section \<open>Properties\<close>

subsection \<open>Duration parsing\<close>

lemma bl: "bit_length (numeral (Num.Bit0 n)) = Suc (bit_length (numeral n))"
  "bit_length (numeral (Num.Bit1 n)) = Suc (bit_length (numeral n))"
  "bit_length 1 = 1" "bit_length 0 = 0" "bit_length (Suc 0) = 1"
  by (subst bit_length.simps, simp add: numeral_Bit0_div_2 numeral_Bit1_div_2 bit_length.simps)+

lemma bit_length_upper: "n < 2 ^ bit_length n"
proof (induction n rule: bit_length.induct)
  case (1 n)
  show ?case
  proof (cases "n = 0")
    case True
    then show ?thesis by (simp add: bit_length.simps)
  next
    case False
    with 1 have "n div 2 < 2 ^ bit_length (n div 2)" by simp
    then have "n < 2 * 2 ^ bit_length (n div 2)" by linarith
    with False show ?thesis by (subst bit_length.simps) simp
  qed
qed

lemma bit_length_lower: "0 < n \<Longrightarrow> 2 ^ (bit_length n - 1) \<le> n"
proof (induction n rule: bit_length.induct)
  case (1 n)
  show ?case
  proof (cases "n div 2 = 0")
    case True
    with 1 have "n = 1" by linarith
    then show ?thesis by (simp add: bl)
  next
    case False
    with 1 have ih: "2 ^ (bit_length (n div 2) - 1) \<le> n div 2" by simp
    from False have pos: "0 < bit_length (n div 2)"
      by (subst bit_length.simps) simp
    have "bit_length n = Suc (bit_length (n div 2))"
      using 1(2) by (subst bit_length.simps) simp
    then have "(2::nat) ^ (bit_length n - 1) = 2 * 2 ^ (bit_length (n div 2) - 1)"
      using pos by (cases "bit_length (n div 2)") simp_all
    with ih show ?thesis by linarith
  qed
qed

lemma pow2_pos: "0 < pow2 e"
  by (simp add: pow2_def)

lemma real_pow2_le: "(2::nat) ^ k \<le> n \<Longrightarrow> (2::real) ^ k \<le> real n"
proof -
  assume "(2::nat) ^ k \<le> n"
  then have "real (2 ^ k) \<le> real n" by (simp only: of_nat_le_iff)
  then show ?thesis by simp
qed

lemma real_less_pow2: "n < (2::nat) ^ k \<Longrightarrow> real n + 1 \<le> (2::real) ^ k"
proof -
  assume "n < (2::nat) ^ k"
  then have "Suc n \<le> 2 ^ k" by simp
  then have "real (Suc n) \<le> real (2 ^ k)" by (simp only: of_nat_le_iff)
  then show ?thesis by simp
qed

lemma floor_log2_bounds:
  assumes "0 < x"
  shows "pow2 (floor_log2 x) \<le> x \<and> x < pow2 (floor_log2 x + 1)"
proof (cases "1 \<le> x")
  case True
  define n where "n = nat \<lfloor>x\<rfloor>"
  have fx: "1 \<le> \<lfloor>x\<rfloor>" using True by linarith
  have rn: "real n = of_int \<lfloor>x\<rfloor>" using fx by (simp add: n_def)
  have n0: "0 < n" using fx by (simp add: n_def)
  have n1: "real n \<le> x" unfolding rn by linarith
  have n2: "x < real n + 1" unfolding rn by linarith
  have b: "0 < bit_length n" using n0 by (subst bit_length.simps) simp
  have fl: "floor_log2 x = int (bit_length n) - 1"
    using True by (simp add: floor_log2_def n_def)
  have p1: "pow2 (floor_log2 x) = 2 ^ (bit_length n - 1)"
    using b by (simp add: fl pow2_def nat_diff_distrib)
  have p2: "pow2 (floor_log2 x + 1) = 2 ^ bit_length n"
    by (simp add: fl pow2_def)
  have lo: "(2::real) ^ (bit_length n - 1) \<le> real n"
    by (rule real_pow2_le [OF bit_length_lower [OF n0]])
  have hi: "real n + 1 \<le> 2 ^ bit_length n"
    by (rule real_less_pow2 [OF bit_length_upper])
  show ?thesis unfolding p1 p2 using lo hi n1 n2 by linarith
next
  case False
  define k where "k = \<lceil>1 / x\<rceil> - 1"
  define m where "m = nat k"
  from False assms have gt1: "1 < 1 / x" by simp
  then have "2 \<le> \<lceil>1 / x\<rceil>" by linarith
  then have k1: "1 \<le> k" by (simp only: k_def)
  have kr: "real_of_int k = of_int \<lceil>1 / x\<rceil> - 1" by (simp add: k_def)
  have rm: "real m = of_int k" using k1 by (simp add: m_def)
  have m0: "0 < m" using k1 by (simp add: m_def)
  have m1: "real m < 1 / x" unfolding rm kr by linarith
  have m2: "1 / x \<le> real m + 1" unfolding rm kr by linarith
  have b: "0 < bit_length m" using m0 by (subst bit_length.simps) simp
  have fl: "floor_log2 x = - int (bit_length m)"
    using False by (simp add: floor_log2_def m_def k_def)
  have p1: "pow2 (floor_log2 x) = 1 / 2 ^ bit_length m"
    using b by (simp add: fl pow2_def)
  have p2: "pow2 (floor_log2 x + 1) = 1 / 2 ^ (bit_length m - 1)"
  proof (cases "bit_length m = 1")
    case True
    then show ?thesis by (simp add: fl pow2_def)
  next
    case F: False
    with b have "1 < bit_length m" by simp
    then have "nat (int (bit_length m) - 1) = bit_length m - 1" by simp
    with \<open>1 < bit_length m\<close> show ?thesis by (simp add: fl pow2_def)
  qed
  have lo: "(2::real) ^ (bit_length m - 1) \<le> real m"
    by (rule real_pow2_le [OF bit_length_lower [OF m0]])
  have hi: "real m + 1 \<le> 2 ^ bit_length m"
    by (rule real_less_pow2 [OF bit_length_upper])
  have "1 / x \<le> 2 ^ bit_length m" using m2 hi by linarith
  then have a: "1 / 2 ^ bit_length m \<le> x"
    using assms by (simp add: field_simps)
  have "2 ^ (bit_length m - 1) < 1 / x" using lo m1 by linarith
  then have c: "x < 1 / 2 ^ (bit_length m - 1)"
    using assms by (simp add: field_simps)
  show ?thesis unfolding p1 p2 using a c by simp
qed

lemma round_half_even_error: "\<bar>of_int (round_half_even y) - y\<bar> \<le> 1 / 2"
  unfolding round_half_even_def Let_def by (auto; linarith)

lemma round_half_even_nonneg: "0 \<le> y \<Longrightarrow> 0 \<le> round_half_even y"
  unfolding round_half_even_def Let_def by (auto; linarith)

lemma pow2_small: "e \<le> - 36 \<Longrightarrow> pow2 e \<le> 1 / 2 ^ 36"
proof -
  assume e: "e \<le> - 36"
  then have "36 \<le> nat (- e)" by simp
  then have "(2::real) ^ 36 \<le> 2 ^ nat (- e)" by (intro power_increasing) simp_all
  then show ?thesis using e by (simp add: pow2_def field_simps)
qed

lemma round_to_double_error:
  assumes "0 \<le> x" "x < 2 ^ 17"
  shows "\<bar>round_to_double x - x\<bar> \<le> 1 / 2 ^ 37 \<and> 0 \<le> round_to_double x"
proof (cases "x = 0")
  case True
  then show ?thesis by (simp add: round_to_double_def)
next
  case False
  with assms have pos: "0 < x" by simp
  define e where "e = max (floor_log2 x - 52) (- 1074)"
  define y where "y = x / pow2 e"
  have "x < pow2 (floor_log2 x + 1)" using floor_log2_bounds [OF pos] by simp
  have fl: "floor_log2 x \<le> 16"
  proof (rule ccontr)
    assume "\<not> floor_log2 x \<le> 16"
    then have "17 \<le> floor_log2 x" by simp
    then have "17 \<le> nat (floor_log2 x)" by simp
    then have "(2::real) ^ 17 \<le> 2 ^ nat (floor_log2 x)" by (intro power_increasing) simp_all
    moreover have "pow2 (floor_log2 x) = 2 ^ nat (floor_log2 x)"
      using \<open>17 \<le> floor_log2 x\<close> by (simp add: pow2_def)
    ultimately show False using floor_log2_bounds [OF pos] assms(2) by linarith
  qed
  then have e36: "e \<le> - 36" by (simp add: e_def)
  have r: "round_to_double x = of_int (round_half_even y) * pow2 e"
    using pos by (simp add: round_to_double_def e_def y_def Let_def)
  have x: "x = y * pow2 e" using pow2_pos [of e] by (simp add: y_def)
  have y0: "0 \<le> y" using pos pow2_pos [of e] by (simp add: y_def)
  have "\<bar>round_to_double x - x\<bar> = \<bar>of_int (round_half_even y) - y\<bar> * pow2 e"
    using pow2_pos [of e] by (subst r, subst x) (simp add: abs_mult flip: left_diff_distrib)
  also have "\<dots> \<le> 1 / 2 * pow2 e"
    using round_half_even_error [of y] pow2_pos [of e] by (intro mult_right_mono) simp_all
  also have "\<dots> \<le> 1 / 2 * (1 / 2 ^ 36)"
    using pow2_small [OF e36] by simp
  finally have "\<bar>round_to_double x - x\<bar> \<le> 1 / 2 ^ 37" by simp
  moreover have "0 \<le> round_to_double x"
    using round_half_even_nonneg [OF y0] pow2_pos [of e] by (simp add: r)
  ultimately show ?thesis by simp
qed


lemma field_cases:
  assumes "digits_field 2 b h"
  obtains a where "h = [a]" "is_digit a" "digit_val a < b"
        | a c where "h = [a, c]" "is_digit a" "is_digit c" "digit_val a * 10 + digit_val c < b"
proof (cases h)
  case Nil
  with assms show ?thesis by (simp add: digits_field_def)
next
  case (Cons a t)
  show ?thesis
  proof (cases t)
    case Nil
    with Cons assms that(1) show ?thesis
      by (simp add: digits_field_def py_int_digits_def)
  next
    case (Cons c u)
    with \<open>h = a # t\<close> assms have "u = []" by (simp add: digits_field_def)
    with Cons \<open>h = a # t\<close> assms that(2) show ?thesis
      by (simp add: digits_field_def py_int_digits_def)
  qed
qed

lemma seg_H:
  assumes h: "digits_field 2 24 h" and c: "\<not> is_digit c"
  shows "re_match (Dir_H # Lit c # ds) (h @ c # r) =
         map (\<lambda>(gs, r'). ((Dir_H, h) # (Lit c, [c]) # gs, r')) (re_match ds r)"
  using h
proof (cases rule: field_cases)
  case (1 a)
  with c show ?thesis
    by (auto simp: alt1_def alt2_def is_digit_def char_in_def)
next
  case (2 a b)
  with c show ?thesis
    by (auto simp: alt1_def alt2_def is_digit_def char_in_def digit_val_def)
qed


lemma seg_M:
  assumes h: "digits_field 2 60 h" and c: "\<not> is_digit c"
  shows "re_match (Dir_M # Lit c # ds) (h @ c # r) =
         map (\<lambda>(gs, r'). ((Dir_M, h) # (Lit c, [c]) # gs, r')) (re_match ds r)"
  using h
proof (cases rule: field_cases)
  case (1 a)
  with c show ?thesis
    by (auto simp: alt1_def alt2_def is_digit_def char_in_def)
next
  case (2 a b)
  with c show ?thesis
    by (auto simp: alt1_def alt2_def is_digit_def char_in_def digit_val_def)
qed

lemma seg_S:
  assumes h: "digits_field 2 60 h" and c: "\<not> is_digit c"
  shows "re_match (Dir_S # Lit c # ds) (h @ c # r) =
         map (\<lambda>(gs, r'). ((Dir_S, h) # (Lit c, [c]) # gs, r')) (re_match ds r)"
  using h
proof (cases rule: field_cases)
  case (1 a)
  with c show ?thesis
    by (auto simp: alt1_def alt2_def is_digit_def char_in_def)
next
  case (2 a b)
  with c show ?thesis
    by (auto simp: alt1_def alt2_def is_digit_def char_in_def digit_val_def)
qed

lemma takeWhile_all: "list_all P xs \<Longrightarrow> takeWhile P xs = xs"
  by (induction xs) auto

lemma seg_f:
  assumes "fraction_field f"
  shows "\<exists>rest. re_match [Dir_f] f = ([(Dir_f, f)], []) # rest"
proof -
  from assms have len: "f \<noteq> []" "length f \<le> 6" and dig: "list_all is_digit f"
    by (simp_all add: fraction_field_def)
  have k: "length (takeWhile is_digit (take 6 f)) = length f"
    using len dig by (simp add: takeWhile_all)
  obtain n where n: "length f = Suc n" using len by (cases f) auto
  have "rev [1..<Suc (length f)] = length f # rev [1..<length f]"
    using n by simp
  then show ?thesis
    by (simp add: re_f_def k)
qed

lemma not_digit_colon: "\<not> is_digit (CHR '':'')"
  by (simp add: is_digit_def char_in_def)

lemma not_digit_dot: "\<not> is_digit (CHR ''.'')"
  by (simp add: is_digit_def char_in_def)

lemma match_Sf:
  assumes "digits_field 2 60 s" "fraction_field f"
  shows "\<exists>rest. re_match fmt_Sf (s @ CHR ''.'' # f) =
           ([(Dir_S, s), (Lit (CHR ''.''), ''.''), (Dir_f, f)], []) # rest"
proof -
  obtain rest where "re_match [Dir_f] f = ([(Dir_f, f)], []) # rest"
    using seg_f [OF assms(2)] by blast
  then show ?thesis
    unfolding fmt_Sf_def by (simp only: seg_S [OF assms(1) not_digit_dot]) simp
qed

lemma match_MSf:
  assumes "digits_field 2 60 m" "digits_field 2 60 s" "fraction_field f"
  shows "\<exists>rest. re_match fmt_MSf (m @ CHR '':'' # s @ CHR ''.'' # f) =
           ([(Dir_M, m), (Lit (CHR '':''), '':''), (Dir_S, s), (Lit (CHR ''.''), ''.''), (Dir_f, f)], []) # rest"
proof -
  obtain rest where "re_match [Dir_f] f = ([(Dir_f, f)], []) # rest"
    using seg_f [OF assms(3)] by blast
  then show ?thesis
    unfolding fmt_MSf_def
    by (simp only: seg_M [OF assms(1) not_digit_colon] seg_S [OF assms(2) not_digit_dot]) simp
qed

lemma match_HMSf:
  assumes "digits_field 2 24 h" "digits_field 2 60 m" "digits_field 2 60 s" "fraction_field f"
  shows "\<exists>rest. re_match fmt_HMSf (h @ CHR '':'' # m @ CHR '':'' # s @ CHR ''.'' # f) =
           ([(Dir_H, h), (Lit (CHR '':''), '':''), (Dir_M, m), (Lit (CHR '':''), '':''),
             (Dir_S, s), (Lit (CHR ''.''), ''.''), (Dir_f, f)], []) # rest"
proof -
  obtain rest where "re_match [Dir_f] f = ([(Dir_f, f)], []) # rest"
    using seg_f [OF assms(4)] by blast
  then show ?thesis
    unfolding fmt_HMSf_def
    by (simp only: seg_H [OF assms(1) not_digit_colon] seg_M [OF assms(2) not_digit_colon]
          seg_S [OF assms(3) not_digit_dot]) simp
qed

lemma py_int_digits_append:
  "py_int_digits (xs @ ys) = foldl (\<lambda>acc c. acc * 10 + digit_val c) (py_int_digits xs) ys"
  by (simp add: py_int_digits_def)

lemma foldl_zeros:
  "foldl (\<lambda>acc c. acc * 10 + digit_val c) a (replicate k (CHR ''0'')) = a * 10 ^ k"
  by (induction k arbitrary: a) (simp_all add: digit_val_def)

lemma fraction_micro:
  assumes "length f \<le> 6"
  shows "real (py_int_digits (f @ replicate (6 - length f) (CHR ''0''))) / 1000000
         = real (py_int_digits f) / 10 ^ length f"
proof -
  define k where "k = 6 - length f"
  have "(10::real) ^ 6 = 10 ^ (k + length f)"
    using assms by (simp add: k_def)
  then have e: "(1000000::real) = 10 ^ k * 10 ^ length f"
    by (simp add: power_add)
  have "real (py_int_digits f * 10 ^ k) / 1000000
        = (real (py_int_digits f) * 10 ^ k) / (10 ^ k * 10 ^ length f)"
    by (simp add: e)
  also have "\<dots> = real (py_int_digits f) / 10 ^ length f"
    by simp
  finally show ?thesis
    by (simp add: py_int_digits_append foldl_zeros k_def)
qed

lemma strptime_Sf:
  assumes "digits_field 2 60 s" "fraction_field f"
  shows "strptime (s @ CHR ''.'' # f) fmt_Sf =
         Inr \<lparr>hour = 0, minute = 0, second = py_int_digits s,
              microsecond = py_int_digits (f @ replicate (6 - length f) (CHR ''0''))\<rparr>"
proof -
  obtain rest where "re_match fmt_Sf (s @ CHR ''.'' # f) =
      ([(Dir_S, s), (Lit (CHR ''.''), ''.''), (Dir_f, f)], []) # rest"
    using match_Sf [OF assms] by blast
  moreover have "py_int_digits s < 60" using assms(1) by (simp add: digits_field_def)
  ultimately show ?thesis
    by (simp add: strptime_def group_int_def group_fraction_def)
qed

lemma strptime_MSf:
  assumes "digits_field 2 60 m" "digits_field 2 60 s" "fraction_field f"
  shows "strptime (m @ CHR '':'' # s @ CHR ''.'' # f) fmt_MSf =
         Inr \<lparr>hour = 0, minute = py_int_digits m, second = py_int_digits s,
              microsecond = py_int_digits (f @ replicate (6 - length f) (CHR ''0''))\<rparr>"
proof -
  obtain rest where "re_match fmt_MSf (m @ CHR '':'' # s @ CHR ''.'' # f) =
      ([(Dir_M, m), (Lit (CHR '':''), '':''), (Dir_S, s), (Lit (CHR ''.''), ''.''), (Dir_f, f)], []) # rest"
    using match_MSf [OF assms] by blast
  moreover have "py_int_digits s < 60" using assms(2) by (simp add: digits_field_def)
  ultimately show ?thesis
    by (simp add: strptime_def group_int_def group_fraction_def)
qed

lemma strptime_HMSf:
  assumes "digits_field 2 24 h" "digits_field 2 60 m" "digits_field 2 60 s" "fraction_field f"
  shows "strptime (h @ CHR '':'' # m @ CHR '':'' # s @ CHR ''.'' # f) fmt_HMSf =
         Inr \<lparr>hour = py_int_digits h, minute = py_int_digits m, second = py_int_digits s,
              microsecond = py_int_digits (f @ replicate (6 - length f) (CHR ''0''))\<rparr>"
proof -
  obtain rest where "re_match fmt_HMSf (h @ CHR '':'' # m @ CHR '':'' # s @ CHR ''.'' # f) =
      ([(Dir_H, h), (Lit (CHR '':''), '':''), (Dir_M, m), (Lit (CHR '':''), '':''),
        (Dir_S, s), (Lit (CHR ''.''), ''.''), (Dir_f, f)], []) # rest"
    using match_HMSf [OF assms] by blast
  moreover have "py_int_digits s < 60" using assms(3) by (simp add: digits_field_def)
  ultimately show ?thesis
    by (simp add: strptime_def group_int_def group_fraction_def)
qed

lemma convert_time_via:
  assumes "time_str \<noteq> []"
    and "(if last time_str = CHR ''M'' then butlast time_str else time_str) = t"
    and "count_list t (CHR '':'') = n"
    and "strptime t (if n = 2 then fmt_HMSf else if n = 1 then fmt_MSf else fmt_Sf) = Inr tm"
  shows "convert_time time_str =
         Inr (int_add_float (second tm + minute tm * 60 + hour tm * 3600)
                (int_truediv (microsecond tm) 1000000))"
  using assms by (auto simp add: convert_time_def Let_def)

lemma py_int_digits_Nil: "py_int_digits [] = 0"
  by (simp add: py_int_digits_def)

lemma count_colon_digits: "list_all is_digit xs \<Longrightarrow> count_list xs (CHR '':'') = 0"
  by (induction xs) (auto simp: is_digit_def char_in_def)

lemma strip_marker:
  assumes "fraction_field f" "sfx = [] \<or> sfx = ''M''"
  shows "(if last (p @ f @ sfx) = CHR ''M'' then butlast (p @ f @ sfx) else p @ f @ sfx) = p @ f"
proof -
  from assms(1) have ne: "f \<noteq> []" and dig: "list_all is_digit f"
    by (simp_all add: fraction_field_def)
  have "is_digit (last f)" using ne dig by (induction f) auto
  then have "last f \<noteq> CHR ''M''" by (auto simp: is_digit_def char_in_def)
  with ne assms(2) show ?thesis
    by (auto simp: butlast_append)
qed

lemma micro_truediv:
  assumes "length f \<le> 6"
  shows "int_truediv (py_int_digits (f @ replicate (6 - length f) (CHR ''0''))) 1000000
         = round_to_double (real (py_int_digits f) / 10 ^ length f)"
  using fraction_micro [OF assms] by (simp add: int_truediv_def)

lemma convert_time_fields:
  assumes h: "digits_field 2 24 h" and m: "digits_field 2 60 m" and s: "digits_field 2 60 s"
    and f: "fraction_field f" and sfx: "sfx = [] \<or> sfx = ''M''"
  shows "convert_time (h @ '':'' @ m @ '':'' @ s @ ''.'' @ f @ sfx) = Inr (float_seconds h m s f)"
    and "convert_time (m @ '':'' @ s @ ''.'' @ f @ sfx) = Inr (float_seconds [] m s f)"
    and "convert_time (s @ ''.'' @ f @ sfx) = Inr (float_seconds [] [] s f)"
proof -
  have dh: "list_all is_digit h" and dm: "list_all is_digit m" and ds: "list_all is_digit s"
    and df: "list_all is_digit f" and lf: "length f \<le> 6"
    using h m s f by (simp_all add: digits_field_def fraction_field_def)
  note cnt = count_colon_digits [OF dh] count_colon_digits [OF dm] count_colon_digits [OF ds]
    count_colon_digits [OF df]
  have c1: "convert_time ((h @ '':'' @ m @ '':'' @ s @ ''.'') @ f @ sfx) = Inr (float_seconds h m s f)"
    by (subst convert_time_via [OF _ strip_marker [OF f sfx] refl, where tm = "\<lparr>hour = py_int_digits h, minute = py_int_digits m, second = py_int_digits s,
              microsecond = py_int_digits (f @ replicate (6 - length f) (CHR ''0''))\<rparr>"])
       (simp_all add: cnt strptime_HMSf [OF h m s f] micro_truediv [OF lf] float_seconds_def
          int_add_float_def add_ac)
  have c2: "convert_time ((m @ '':'' @ s @ ''.'') @ f @ sfx) = Inr (float_seconds [] m s f)"
    by (subst convert_time_via [OF _ strip_marker [OF f sfx] refl, where tm = "\<lparr>hour = 0, minute = py_int_digits m, second = py_int_digits s,
              microsecond = py_int_digits (f @ replicate (6 - length f) (CHR ''0''))\<rparr>"])
       (simp_all add: cnt strptime_MSf [OF m s f] micro_truediv [OF lf] float_seconds_def
          int_add_float_def py_int_digits_Nil add_ac)
  have c3: "convert_time ((s @ ''.'') @ f @ sfx) = Inr (float_seconds [] [] s f)"
    by (subst convert_time_via [OF _ strip_marker [OF f sfx] refl, where tm = "\<lparr>hour = 0, minute = 0, second = py_int_digits s,
              microsecond = py_int_digits (f @ replicate (6 - length f) (CHR ''0''))\<rparr>"])
       (simp_all add: cnt strptime_Sf [OF s f] micro_truediv [OF lf] float_seconds_def
          int_add_float_def py_int_digits_Nil)
  from c1 show "convert_time (h @ '':'' @ m @ '':'' @ s @ ''.'' @ f @ sfx) = Inr (float_seconds h m s f)"
    by simp
  from c2 show "convert_time (m @ '':'' @ s @ ''.'' @ f @ sfx) = Inr (float_seconds [] m s f)"
    by simp
  from c3 show "convert_time (s @ ''.'' @ f @ sfx) = Inr (float_seconds [] [] s f)"
    by simp
qed

lemma py_int_digits_snoc: "py_int_digits (s @ [c]) = py_int_digits s * 10 + digit_val c"
  by (simp add: py_int_digits_def)

lemma py_int_digits_less: "list_all is_digit s \<Longrightarrow> py_int_digits s < 10 ^ length s"
proof (induction s rule: rev_induct)
  case Nil
  show ?case by (simp add: py_int_digits_Nil)
next
  case (snoc c s)
  then have ih: "py_int_digits s < 10 ^ length s" and c: "digit_val c \<le> 9"
    by (auto simp: is_digit_def char_in_def digit_val_def)
  from ih have "py_int_digits s + 1 \<le> 10 ^ length s" by simp
  then have "(py_int_digits s + 1) * 10 \<le> 10 ^ length s * 10" by (rule mult_right_mono) simp
  with c show ?case by (simp add: py_int_digits_snoc)
qed

lemma float_seconds_error:
  assumes h: "h = [] \<or> digits_field 2 24 h" and m: "m = [] \<or> digits_field 2 60 m"
    and s: "digits_field 2 60 s" and f: "fraction_field f"
  shows "\<bar>float_seconds h m s f - duration_seconds h m s f\<bar> \<le> 1 / 2 ^ 36"
proof -
  define n where "n = py_int_digits h * 3600 + py_int_digits m * 60 + py_int_digits s"
  define q where "q = real (py_int_digits f) / 10 ^ length f"
  have "py_int_digits h < 24" using h by (auto simp: digits_field_def py_int_digits_Nil)
  moreover have "py_int_digits m < 60" using m by (auto simp: digits_field_def py_int_digits_Nil)
  moreover have "py_int_digits s < 60" using s by (simp add: digits_field_def)
  ultimately have n: "n < 86400" by (simp add: n_def)
  have "list_all is_digit f" using f by (simp add: fraction_field_def)
  from py_int_digits_less [OF this] have "real (py_int_digits f) < 10 ^ length f"
    by (metis of_nat_less_iff of_nat_numeral of_nat_power)
  then have q: "0 \<le> q" "q < 1" by (simp_all add: q_def)
  from round_to_double_error [of q] q
  have rq: "\<bar>round_to_double q - q\<bar> \<le> 1 / 2 ^ 37" "0 \<le> round_to_double q" by simp_all
  then have "round_to_double q \<le> q + 1 / 2 ^ 37" by linarith
  with q have "round_to_double q < 2" by simp
  with n rq(2) have "0 \<le> real n + round_to_double q" "real n + round_to_double q < 2 ^ 17"
    by simp_all
  from round_to_double_error [OF this]
  have "\<bar>round_to_double (real n + round_to_double q) - (real n + round_to_double q)\<bar> \<le> 1 / 2 ^ 37"
    by simp
  with rq(1) have "\<bar>round_to_double (real n + round_to_double q) - (real n + q)\<bar> \<le> 1 / 2 ^ 37 + 1 / 2 ^ 37"
    by linarith
  moreover have "float_seconds h m s f = round_to_double (real n + round_to_double q)"
    by (simp add: float_seconds_def n_def q_def)
  moreover have "duration_seconds h m s f = real n + q"
    by (simp add: duration_seconds_def n_def q_def)
  ultimately show ?thesis by simp
qed

text \<open>
  Claim C8, as the code has it.  For every duration string of shape \<open>h:mm:ss.ffffff\<close>,
  \<open>mm:ss.ffffff\<close> or \<open>ss.ffffff\<close> (hours below 24, minutes and seconds below 60, each of
  one or two digits, a fraction of one to six digits), with or without the marker \<open>M\<close> at
  the end, \<open>convert_time\<close> returns the float \<open>float_seconds\<close>: the fraction rounded to a
  float, added to hours * 3600 + minutes * 60 + seconds, and the sum rounded again.  It lies
  within \<open>2 ^ - 36\<close> of the exact value, hours * 3600 + minutes * 60 + seconds plus the
  fraction.
\<close>

theorem convert_time_valid:
  assumes h: "digits_field 2 24 h" and m: "digits_field 2 60 m" and s: "digits_field 2 60 s"
    and f: "fraction_field f" and sfx: "sfx = [] \<or> sfx = ''M''"
  shows "convert_time (h @ '':'' @ m @ '':'' @ s @ ''.'' @ f @ sfx) = Inr (float_seconds h m s f)
       \<and> \<bar>float_seconds h m s f - duration_seconds h m s f\<bar> \<le> 1 / 2 ^ 36
       \<and> convert_time (m @ '':'' @ s @ ''.'' @ f @ sfx) = Inr (float_seconds [] m s f)
       \<and> \<bar>float_seconds [] m s f - duration_seconds [] m s f\<bar> \<le> 1 / 2 ^ 36
       \<and> convert_time (s @ ''.'' @ f @ sfx) = Inr (float_seconds [] [] s f)
       \<and> \<bar>float_seconds [] [] s f - duration_seconds [] [] s f\<bar> \<le> 1 / 2 ^ 36"
  using convert_time_fields [OF h m s f sfx]
    float_seconds_error [of h m s f] float_seconds_error [of "[]" m s f]
    float_seconds_error [of "[]" "[]" s f] h m s f
  by simp

lemma digit_codes:
  "is_digit (CHR ''0'')" "is_digit (CHR ''1'')" "is_digit (CHR ''2'')" "is_digit (CHR ''3'')"
  "is_digit (CHR ''4'')" "is_digit (CHR ''5'')" "is_digit (CHR ''8'')"
  by (simp_all add: is_digit_def char_in_def)

lemmas double_eval = round_to_double_def floor_log2_def bl pow2_def round_half_even_def Let_def

lemma example_doubles:
  "float_seconds ''1'' ''02'' ''03'' ''45'' = round_to_double 3723.45"
  "float_seconds [] [] ''28'' ''44'' = round_to_double 28.44"
  by (simp_all add: float_seconds_def py_int_digits_def digit_val_def double_eval)

text \<open>The two examples of the specification, obtained from the theorem: here the result is
  the float nearest to the exact value, which is what the literals \<open>3723.45\<close> and \<open>28.44\<close>
  denote.\<close>

theorem convert_time_valid_witness:
  "convert_time ''1:02:03.45'' = Inr (round_to_double 3723.45)
   \<and> convert_time ''28.44M'' = Inr (round_to_double 28.44)"
proof -
  have "convert_time ''1:02:03.45'' = Inr (float_seconds ''1'' ''02'' ''03'' ''45'')"
    using convert_time_valid [of "''1''" "''02''" "''03''" "''45''" "[]"]
    by (simp add: digits_field_def fraction_field_def digit_codes py_int_digits_def digit_val_def)
  moreover have "convert_time ''28.44M'' = Inr (float_seconds [] [] ''28'' ''44'')"
    using convert_time_valid [of "''1''" "''02''" "''28''" "''44''" "''M''"]
    by (simp add: digits_field_def fraction_field_def digit_codes py_int_digits_def digit_val_def)
  ultimately show ?thesis
    by (simp add: example_doubles)
qed

text \<open>
  Claim C8 as stated fails: the result is not always the exact value, nor the float nearest to
  it.  On \<open>1.14\<close> the code returns \<open>1.1400000000000001\<close>, one step above the float
  nearest to 1.14.
\<close>

theorem convert_time_double_rounding:
  "convert_time ''1.14'' = Inr (2567051787601183 / 2251799813685248)
   \<and> round_to_double 1.14 = 5134103575202365 / 4503599627370496
   \<and> (2567051787601183 / 2251799813685248 :: real) \<noteq> round_to_double 1.14
   \<and> (2567051787601183 / 2251799813685248 :: real) \<noteq> 1.14"
proof -
  have "convert_time (''1'' @ ''.'' @ ''14'' @ []) = Inr (float_seconds [] [] ''1'' ''14'')"
    by (rule convert_time_fields(3) [where h = "''1''" and m = "''1''"])
       (simp_all add: digits_field_def fraction_field_def digit_codes py_int_digits_def digit_val_def)
  moreover have "float_seconds [] [] ''1'' ''14'' = 2567051787601183 / 2251799813685248"
    by (simp add: float_seconds_def py_int_digits_def digit_val_def double_eval)
  moreover have "round_to_double 1.14 = 5134103575202365 / 4503599627370496"
    by (simp add: double_eval)
  ultimately show ?thesis by simp
qed

text \<open>
  Claim C9.  On the empty string \<open>convert_time\<close> does not fail with the format error of
  \<open>strptime\<close> (\<open>ValueError\<close>): the index \<open>time_str[-1]\<close> raises \<open>IndexError\<close> first.
\<close>

theorem convert_time_empty_IndexError: "convert_time [] = Inl IndexError"
  by (simp add: convert_time_def)

lemma strptime_error: "strptime s fmt = Inl e \<Longrightarrow> e = ValueError"
  by (auto simp: strptime_def split: list.splits if_splits prod.splits)

lemma convert_time_error_kind:
  "convert_time s = Inl e \<Longrightarrow> e = (if s = [] then IndexError else ValueError)"
  by (auto simp: convert_time_def Let_def split: sum.splits if_splits dest: strptime_error)

subsection \<open>The rate limit\<close>

lemma sorted_hd_Min: "sorted xs \<Longrightarrow> xs \<noteq> [] \<Longrightarrow> hd xs = Min (set xs)"
  by (cases xs) (auto intro!: Min_eqI [symmetric])

text \<open>
  Claim C5.  \<open>check_request_rate_limit\<close> counts the recorded timestamps strictly newer than
  \<open>now - max_per\<close>.  Below the maximum it returns at once and changes nothing.  Otherwise,
  with a timestamp in the window (there is one whenever the maximum is positive) and a history
  in the order it was recorded, it sleeps for exactly oldest-in-window + \<open>max_per\<close> - \<open>now\<close>,
  a positive time, and keeps the timestamps inside the window that ends at the wake-up time
  \<open>now + wait\<close>.  With the limit (2, 1) and two timestamps in the window, the call returns
  no earlier than one second after the first.
\<close>

theorem check_request_rate_limit_spec:
  "(int (length (in_window now sm)) < max_requests_per_second sm \<longrightarrow>
      check_request_rate_limit now sm = Inr (0, sm))
   \<and> (max_requests_per_second sm \<le> int (length (in_window now sm))
        \<and> in_window now sm \<noteq> [] \<and> sorted (request_history sm) \<longrightarrow>
      (let wait = Min (set (in_window now sm)) + max_per sm - now
       in 0 < wait
          \<and> check_request_rate_limit now sm =
              Inr (wait, sm\<lparr>request_history :=
                               filter (\<lambda>t. now + wait - max_per sm < t) (request_history sm)\<rparr>)))
   \<and> (max_requests_per_second sm \<le> int (length (in_window now sm))
        \<and> 0 < max_requests_per_second sm \<longrightarrow> in_window now sm \<noteq> [])
   \<and> (max_requests_per_second sm = 2 \<and> max_per sm = 1 \<and> request_history sm = [t1, t2]
        \<and> t1 \<le> t2 \<and> now - 1 < t1 \<longrightarrow>
      (\<exists>wait sm'. check_request_rate_limit now sm = Inr (wait, sm') \<and> t1 + 1 \<le> now + wait))"
proof (intro conjI impI)
  assume "int (length (in_window now sm)) < max_requests_per_second sm"
  then show "check_request_rate_limit now sm = Inr (0, sm)"
    by (simp add: check_request_rate_limit_def in_window_def Let_def)
next
  assume a: "max_requests_per_second sm \<le> int (length (in_window now sm))
     \<and> in_window now sm \<noteq> [] \<and> sorted (request_history sm)"
  then have ne: "in_window now sm \<noteq> []" by simp
  then obtain v vs where v: "in_window now sm = v # vs" by (cases "in_window now sm") auto
  have "sorted (in_window now sm)"
    using a by (simp add: in_window_def sorted_wrt_filter)
  from sorted_hd_Min [OF this ne] v have m: "Min (set (in_window now sm)) = v"
    by simp
  have "v \<in> set (in_window now sm)" by (simp add: v)
  then have gt: "now - max_per sm < v" by (simp add: in_window_def)
  have e: "now - max_per sm + (v + max_per sm - now) = v"
    "now + (v + max_per sm - now) - max_per sm = v" by simp_all
  show "let wait = Min (set (in_window now sm)) + max_per sm - now
       in 0 < wait
          \<and> check_request_rate_limit now sm =
              Inr (wait, sm\<lparr>request_history :=
                               filter (\<lambda>t. now + wait - max_per sm < t) (request_history sm)\<rparr>)"
    unfolding Let_def m
  proof
    show "0 < v + max_per sm - now" using gt by simp
    have "filter (\<lambda>t. now - max_per sm < t) (request_history sm) = v # vs"
      using v by (simp add: in_window_def)
    moreover have "max_requests_per_second sm \<le> int (length (v # vs))"
      using a v by simp
    ultimately show "check_request_rate_limit now sm =
          Inr (v + max_per sm - now,
               sm\<lparr>request_history :=
                    filter (\<lambda>t. now + (v + max_per sm - now) - max_per sm < t) (request_history sm)\<rparr>)"
      using gt unfolding check_request_rate_limit_def Let_def e by simp
  qed
next
  assume "max_requests_per_second sm \<le> int (length (in_window now sm))
        \<and> 0 < max_requests_per_second sm"
  then show "in_window now sm \<noteq> []" by auto
next
  assume "max_requests_per_second sm = 2 \<and> max_per sm = 1 \<and> request_history sm = [t1, t2]
        \<and> t1 \<le> t2 \<and> now - 1 < t1"
  then show "\<exists>wait sm'. check_request_rate_limit now sm = Inr (wait, sm') \<and> t1 + 1 \<le> now + wait"
    by (simp add: check_request_rate_limit_def Let_def)
qed

text \<open>The limit (2, 1) at time 3: one request in the window passes; with the history
  1, 9/4, 5/2 the call sleeps 1/4 and keeps 5/2; with 9/4, 5/2 it returns at 13/4 or later.\<close>

theorem check_request_rate_limit_spec_witness:
  "check_request_rate_limit 3 (new_session_manager 2 1\<lparr>request_history := [5/2]\<rparr>)
     = Inr (0, new_session_manager 2 1\<lparr>request_history := [5/2]\<rparr>)
   \<and> check_request_rate_limit 3 (new_session_manager 2 1\<lparr>request_history := [1, 9/4, 5/2]\<rparr>)
     = Inr (1/4, new_session_manager 2 1\<lparr>request_history := [5/2]\<rparr>)
   \<and> (\<exists>wait sm'. check_request_rate_limit 3
                       (new_session_manager 2 1\<lparr>request_history := [9/4, 5/2]\<rparr>) = Inr (wait, sm')
         \<and> 9/4 + 1 \<le> 3 + wait)"
proof -
  have a: "check_request_rate_limit 3 (new_session_manager 2 1\<lparr>request_history := [5/2]\<rparr>)
     = Inr (0, new_session_manager 2 1\<lparr>request_history := [5/2]\<rparr>)"
    using check_request_rate_limit_spec
      [of 3 "new_session_manager 2 1\<lparr>request_history := [5/2]\<rparr>" 0 0]
    by (simp add: in_window_def new_session_manager_def)
  have b: "check_request_rate_limit 3 (new_session_manager 2 1\<lparr>request_history := [1, 9/4, 5/2]\<rparr>)
     = Inr (1/4, new_session_manager 2 1\<lparr>request_history := [5/2]\<rparr>)"
    using check_request_rate_limit_spec
      [of 3 "new_session_manager 2 1\<lparr>request_history := [1, 9/4, 5/2]\<rparr>" 0 0]
    by (simp add: in_window_def new_session_manager_def)
  have c: "\<exists>wait sm'. check_request_rate_limit 3
                       (new_session_manager 2 1\<lparr>request_history := [9/4, 5/2]\<rparr>) = Inr (wait, sm')
         \<and> 9/4 + 1 \<le> 3 + wait"
    using check_request_rate_limit_spec
      [of 3 "new_session_manager 2 1\<lparr>request_history := [9/4, 5/2]\<rparr>" "9/4" "5/2"]
    by (simp add: new_session_manager_def)
  from a b c show ?thesis by simp
qed

lemma count_shrinks:
  assumes "(a::real) \<le> b"
  shows "length (filter (\<lambda>t. b < t) xs) \<le> length (filter (\<lambda>t. a < t) xs)"
proof -
  have "filter (\<lambda>t. b < t) xs = filter (\<lambda>t. b < t) (filter (\<lambda>t. a < t) xs)"
    using assms by (auto intro!: filter_cong)
  then show ?thesis
    by (metis length_filter_le)
qed

lemma count_drops_oldest:
  assumes "filter (\<lambda>t. (a::real) < t) xs = v # vs"
  shows "length (filter (\<lambda>t. v < t) xs) < length (filter (\<lambda>t. a < t) xs)"
proof -
  have av: "a < v"
  proof -
    have "v \<in> set (filter (\<lambda>t. a < t) xs)" by (simp add: assms)
    then show ?thesis by simp
  qed
  have "filter (\<lambda>t. v < t) xs = filter (\<lambda>t. v < t) (filter (\<lambda>t. a < t) xs)"
    using av by (auto intro!: filter_cong)
  also have "\<dots> = filter (\<lambda>t. v < t) vs"
    by (simp add: assms)
  finally have "length (filter (\<lambda>t. v < t) xs) \<le> length vs"
    by simp
  then show ?thesis
    by (simp add: assms)
qed

lemma check_config:
  assumes "check_request_rate_limit now sm = Inr (slept, sm')"
  shows "max_per sm' = max_per sm \<and> max_requests_per_second sm' = max_requests_per_second sm
         \<and> 0 \<le> slept"
  using assms
  by (auto simp: check_request_rate_limit_def Let_def split: if_splits list.splits)

lemma admit_window_ok:
  assumes inv: "window_ok pending (t, sm)" and d: "0 \<le> d"
    and chk: "check_request_rate_limit (t + d) sm = Inr (slept, sm')"
  shows "window_ok True (t + d + slept, sm')"
proof -
  let ?valid = "filter (\<lambda>x. t + d - max_per sm < x) (request_history sm)"
  have mono: "length ?valid \<le> length (in_window t sm)"
    unfolding in_window_def using d by (intro count_shrinks) simp
  show ?thesis
  proof (cases "int (length ?valid) \<ge> max_requests_per_second sm")
    case False
    with chk have "slept = 0" "sm' = sm"
      by (auto simp: check_request_rate_limit_def Let_def)
    with False show ?thesis
      by (simp add: window_ok_def in_window_def)
  next
    case True
    with chk obtain v vs where v: "?valid = v # vs"
      by (cases ?valid) (auto simp: check_request_rate_limit_def Let_def)
    with True chk have slept: "slept = v + max_per sm - (t + d)"
      and sm': "sm' = sm\<lparr>request_history := filter (\<lambda>x. t + d - max_per sm + slept < x) (request_history sm)\<rparr>"
      by (auto simp: check_request_rate_limit_def Let_def split: if_splits)
    have ne: "request_history sm \<noteq> []" using v by auto
    have "\<not> pending"
    proof
      assume "pending"
      with inv have "int (length (in_window t sm)) < max_requests_per_second sm"
        by (simp add: window_ok_def)
      with mono True show False by simp
    qed
    with inv ne have le: "int (length (in_window t sm)) \<le> max_requests_per_second sm"
      by (simp add: window_ok_def)
    have eq: "t + d - max_per sm + slept = v" "t + d + slept - max_per sm = v"
      by (simp_all add: slept)
    have "in_window (t + d + slept) sm' = filter (\<lambda>x. v < x) (request_history sm)"
      by (simp add: in_window_def sm' eq)
    moreover have "length (filter (\<lambda>x. v < x) (request_history sm)) < length ?valid"
      by (rule count_drops_oldest [OF v])
    ultimately have "int (length (in_window (t + d + slept) sm')) < max_requests_per_second sm"
      using mono le by simp
    then show ?thesis
      by (simp add: window_ok_def sm')
  qed
qed

lemma record_window_ok:
  assumes inv: "window_ok True (t, sm)" and d: "0 \<le> d"
  shows "window_ok False (t + d, add_request (t + d) sm)"
proof -
  have "length (filter (\<lambda>x. t + d - max_per sm < x) (request_history sm))
        \<le> length (in_window t sm)"
    unfolding in_window_def using d by (intro count_shrinks) simp
  moreover have "int (length (in_window t sm)) < max_requests_per_second sm"
    using inv by (simp add: window_ok_def)
  ultimately show ?thesis
    by (simp add: window_ok_def in_window_def add_request_def)
qed

lemma run_calls_window_ok:
  assumes "admitted_before_recorded pending cs" "window_ok pending st"
    and "run_calls cs st = Inr st'"
  shows "window_ok (pending_after pending cs) st'
         \<and> max_requests_per_second (snd st') = max_requests_per_second (snd st)
         \<and> max_per (snd st') = max_per (snd st)"
  using assms
proof (induction cs arbitrary: pending st)
  case Nil
  then show ?case by simp
next
  case (Cons c cs)
  obtain t sm where st: "st = (t, sm)" by (cases st)
  show ?case
  proof (cases c)
    case (Admit d)
    with Cons.prems st obtain slept sm' where
      chk: "check_request_rate_limit (t + d) sm = Inr (slept, sm')"
      and run: "run_calls cs (t + d + slept, sm') = Inr st'"
      by (auto split: sum.splits)
    from Cons.prems Admit have d: "0 \<le> d" and wo: "admitted_before_recorded True cs"
      by simp_all
    have ok: "window_ok True (t + d + slept, sm')"
      using admit_window_ok [OF _ d chk] Cons.prems(2) st by simp
    from Cons.IH [OF wo ok run] check_config [OF chk] show ?thesis
      by (simp add: Admit st)
  next
    case (Record d)
    from Cons.prems Record have d: "0 \<le> d" and p: "pending"
      and wo: "admitted_before_recorded False cs"
      by simp_all
    from Cons.prems Record st have run: "run_calls cs (t + d, add_request (t + d) sm) = Inr st'"
      by simp
    have ok: "window_ok False (t + d, add_request (t + d) sm)"
      using record_window_ok [OF _ d] Cons.prems(2) p st by simp
    from Cons.IH [OF wo ok run] show ?thesis
      by (simp add: Record st add_request_def)
  qed
qed

lemma pending_after_admit: "pending_after p (cs @ [Admit d]) = True"
proof (induction cs arbitrary: p)
  case Nil
  show ?case by simp
next
  case (Cons c cs)
  then show ?case by (cases c) simp_all
qed

text \<open>
  Claim C6.  Start from a manager with an empty history and run any sequence of calls in which
  time does not run backwards and each request is admitted before it is recorded.  Whenever the
  sequence ends with an admission that returned, at most \<open>max_requests_per_second\<close> recorded
  timestamps lie in the trailing window of \<open>max_per\<close> seconds at that instant.
\<close>

theorem request_window_invariant:
  assumes "admitted_before_recorded False (cs @ [Admit d])"
    and "run_calls (cs @ [Admit d]) (t0, new_session_manager n per) = Inr (t, sm)"
  shows "int (length (in_window t sm)) \<le> n \<and> max_per sm = per"
proof -
  have "window_ok False (t0, new_session_manager n per)"
    by (simp add: window_ok_def new_session_manager_def)
  from run_calls_window_ok [OF assms(1) this assms(2)]
  show ?thesis
    by (simp add: pending_after_admit window_ok_def new_session_manager_def)
qed

text \<open>The limit (2, 1): two requests at times 0 and 1/4, and a third admission asked for at
  1/2, which returns at time 1 with one timestamp left in the window.\<close>

theorem request_window_invariant_witness:
  "admitted_before_recorded False [Admit 0, Record 0, Admit (1/4), Record 0, Admit (1/4)]
   \<and> run_calls [Admit 0, Record 0, Admit (1/4), Record 0, Admit (1/4)] (0, new_session_manager 2 1)
       = Inr (1, new_session_manager 2 1\<lparr>request_history := [1/4]\<rparr>)
   \<and> int (length (in_window 1 (new_session_manager 2 1\<lparr>request_history := [1/4]\<rparr>))) \<le> 2"
proof -
  have wo: "admitted_before_recorded False ([Admit 0, Record 0, Admit (1/4), Record 0] @ [Admit (1/4)])"
    by simp
  have run: "run_calls ([Admit 0, Record 0, Admit (1/4), Record 0] @ [Admit (1/4)])
               (0, new_session_manager 2 1)
             = Inr (1, new_session_manager 2 1\<lparr>request_history := [1/4]\<rparr>)"
    by (simp add: check_request_rate_limit_def add_request_def new_session_manager_def Let_def)
  from request_window_invariant [OF wo run] wo run show ?thesis
    by simp
qed

lemma run_calls_sorted:
  assumes "admitted_before_recorded pending cs"
    and "sorted (request_history (snd st))" "list_all (\<lambda>x. x \<le> fst st) (request_history (snd st))"
    and "run_calls cs st = Inr st'"
  shows "sorted (request_history (snd st')) \<and> list_all (\<lambda>x. x \<le> fst st') (request_history (snd st'))"
  using assms
proof (induction cs arbitrary: pending st)
  case Nil
  then show ?case by simp
next
  case (Cons c cs)
  obtain t sm where st: "st = (t, sm)" by (cases st)
  have bound: "\<forall>x\<in>set (request_history sm). x \<le> t"
    using Cons.prems(3) st by (simp add: list_all_iff)
  show ?case
  proof (cases c)
    case (Admit d)
    with Cons.prems st obtain slept sm' where
      chk: "check_request_rate_limit (t + d) sm = Inr (slept, sm')"
      and run: "run_calls cs (t + d + slept, sm') = Inr st'"
      by (auto split: sum.splits)
    from Cons.prems Admit have d: "0 \<le> d" and wo: "admitted_before_recorded True cs"
      by simp_all
    have sl: "0 \<le> slept" using check_config [OF chk] by simp
    have sub: "\<exists>P. request_history sm' = filter P (request_history sm)"
      using chk
      by (auto simp: check_request_rate_limit_def Let_def split: if_splits list.splits
               intro: exI [of _ "\<lambda>_. True"])
    then obtain P where P: "request_history sm' = filter P (request_history sm)" by blast
    have s: "sorted (request_history (snd (t + d + slept, sm')))"
      using Cons.prems(2) st by (simp add: P sorted_wrt_filter)
    have b: "list_all (\<lambda>x. x \<le> fst (t + d + slept, sm')) (request_history (snd (t + d + slept, sm')))"
      using bound d sl by (auto simp: P list_all_iff intro: order_trans)
    from Cons.IH [OF wo s b run] show ?thesis .
  next
    case (Record d)
    from Cons.prems Record have d: "0 \<le> d" and wo: "admitted_before_recorded False cs"
      by simp_all
    from Cons.prems Record st have run: "run_calls cs (t + d, add_request (t + d) sm) = Inr st'"
      by simp
    have s: "sorted (request_history (snd (t + d, add_request (t + d) sm)))"
      using Cons.prems(2) st bound d by (auto simp: add_request_def sorted_append intro: order_trans)
    have b: "list_all (\<lambda>x. x \<le> fst (t + d, add_request (t + d) sm))
               (request_history (snd (t + d, add_request (t + d) sm)))"
      using bound d by (auto simp: add_request_def list_all_iff intro: order_trans)
    from Cons.IH [OF wo s b run] show ?thesis .
  qed
qed

subsection \<open>Fetching and caching\<close>

text \<open>Python's \<^verbatim>\<open>==\<close> on the parameter dictionaries is reflexive on the values that occur in
  them, and it compares the two dictionaries key by key.\<close>

lemma py_eq_refl: "py_eq a a"
  by (cases a) (simp_all add: py_eq_def)

lemma item_eq_refl: "item_eq x x"
  by (cases x) (simp_all add: item_eq_def py_eq_refl)

lemma dict_eq_refl: "dict_eq a a"
  by (simp add: dict_eq_def list_all_iff item_eq_refl)

lemma dict_eq_iff: "dict_eq a b \<longleftrightarrow> (\<forall>k. item_eq (map_of a k) (map_of b k))"
proof
  assume "\<forall>k. item_eq (map_of a k) (map_of b k)"
  then show "dict_eq a b" by (simp add: dict_eq_def list_all_iff)
next
  assume d: "dict_eq a b"
  show "\<forall>k. item_eq (map_of a k) (map_of b k)"
  proof
    fix k
    show "item_eq (map_of a k) (map_of b k)"
    proof (cases "k \<in> fst ` set a \<union> fst ` set b")
      case True
      with d show ?thesis by (auto simp: dict_eq_def list_all_iff)
    next
      case False
      then have "map_of a k = None" "map_of b k = None"
        by (simp_all add: map_of_eq_None_iff)
      then show ?thesis by (simp add: item_eq_def)
    qed
  qed
qed

text \<open>With a positive maximum the rate limit check raises nothing.\<close>

lemma check_request_rate_limit_returns:
  assumes "0 < max_requests_per_second sm"
  shows "\<exists>slept sm'. check_request_rate_limit now sm = Inr (slept, sm') \<and> 0 \<le> slept
           \<and> max_requests_per_second sm' = max_requests_per_second sm"
proof (cases "int (length (in_window now sm)) \<ge> max_requests_per_second sm")
  case False
  then show ?thesis
    by (simp add: check_request_rate_limit_def in_window_def Let_def)
next
  case True
  with assms obtain v vs where v: "in_window now sm = v # vs"
    by (cases "in_window now sm") auto
  then have "v \<in> set (in_window now sm)" by simp
  then have "now - max_per sm < v" by (simp add: in_window_def)
  with True v show ?thesis
    by (simp add: check_request_rate_limit_def in_window_def Let_def)
qed

text \<open>What a refresh and a call of \<^verbatim>\<open>_get_page_content\<close> do to the state: a refresh logs
  one GET with the dictionary as it is at that moment, a call that needs no refresh logs
  nothing, and either way the reference passed is stored as \<^verbatim>\<open>last_request\<close>.\<close>

lemma update_page_content_effect:
  assumes "rate_limit_ok w" and "update_page_content p (self, w) = (r, self', w')"
  shows "r = Inr () \<and> requests_sent w' = requests_sent w @ [objects w p]
       \<and> objects w' = objects w \<and> next_object w' = next_object w \<and> rate_limit_ok w'
       \<and> update_interval self' = update_interval self
       \<and> last_request self' = last_request self
       \<and> (last_updated self' = last_updated self \<or> last_updated self' = Some (clock w'))
       \<and> clock w \<le> clock w'"
proof -
  from assms(1) have "0 < max_requests_per_second (manager w)" by (simp add: rate_limit_ok_def)
  from check_request_rate_limit_returns [OF this, of "clock w"]
  obtain slept sm where chk: "check_request_rate_limit (clock w) (manager w) = Inr (slept, sm)"
    and sl: "0 \<le> slept"
    and mx: "max_requests_per_second sm = max_requests_per_second (manager w)"
    by blast
  from assms chk sl mx show ?thesis
    by (auto simp: update_page_content_def Let_def print_error_def add_request_def
        rate_limit_ok_def split: http_response.splits if_splits)
qed

lemma get_page_content_miss:
  assumes "needs_update p (self, w)" "rate_limit_ok w"
  shows "requests_sent (snd (snd (get_page_content p (self, w)))) = requests_sent w @ [objects w p]"
proof -
  obtain r self' w' where u: "update_page_content p (self, w) = (r, self', w')"
    by (cases "update_page_content p (self, w)")
  from update_page_content_effect [OF assms(2) u] assms(1) u show ?thesis
    by (simp add: get_page_content_def)
qed

lemma get_page_content_hit:
  assumes "\<not> needs_update p (self, w)"
  shows "get_page_content p (self, w) = (Inr (page_content self), self\<lparr>last_request := Some p\<rparr>, w)"
  using assms by (simp add: get_page_content_def)

lemma get_page_content_state:
  assumes "rate_limit_ok (snd st)" and "get_page_content p st = (r, self1, w1)"
  shows "r = Inr (page_content self1) \<and> last_request self1 = Some p
       \<and> update_interval self1 = update_interval (fst st)
       \<and> objects w1 = objects (snd st) \<and> next_object w1 = next_object (snd st)
       \<and> rate_limit_ok w1
       \<and> (requests_sent w1 = requests_sent (snd st)
          \<or> requests_sent w1 = requests_sent (snd st) @ [objects (snd st) p])"
proof -
  obtain self w where st: "st = (self, w)" by (cases st)
  show ?thesis
  proof (cases "needs_update p st")
    case False
    with assms show ?thesis
      by (auto simp: get_page_content_def st)
  next
    case True
    obtain u self' w' where u: "update_page_content p (self, w) = (u, self', w')"
      by (cases "update_page_content p (self, w)")
    from update_page_content_effect [OF _ u] assms(1) st
    have "u = Inr ()" "requests_sent w' = requests_sent w @ [objects w p]"
      "objects w' = objects w" "next_object w' = next_object w" "rate_limit_ok w'"
      "update_interval self' = update_interval self"
      by simp_all
    with True u assms(2) st show ?thesis
      by (auto simp: get_page_content_def)
  qed
qed

lemma update_page_content_fresh:
  assumes "update_page_content p (self, w) = (r, self', w')"
    and "last_updated self = None" "last_updated self' = Some t"
  shows "t = clock w' \<and> requests_sent w' = requests_sent w @ [objects w p] \<and> r = Inr ()
       \<and> update_interval self' = update_interval self"
  using assms
  by (auto simp: update_page_content_def Let_def print_error_def add_request_def
           split: http_response.splits sum.splits prod.splits if_splits)

text \<open>
  Claim C3, as the code has it.  (1) On an object without a time stamp yet, if the GET of the
  first call returns with a success status (the time stamp is set), a second call with the same
  dictionary at most \<open>update_interval\<close> later issues no GET: the two calls issue exactly one,
  and return the same page.  (2) On any object, after a call with the dictionary at reference
  \<open>p\<close>, and whatever the caller has done to its dictionaries since (\<open>objs\<close>), a call with
  the dictionary at \<open>p'\<close> issues no GET and returns the same page as long as the time stamp
  that the first call leaves is at most \<open>update_interval\<close> old and the dictionary at \<open>p'\<close>
  is equal, by Python's \<^verbatim>\<open>==\<close>, to what is now at \<open>p\<close>; that is always so when \<open>p'\<close> is
  \<open>p\<close>, the same object passed again, changed or not.  (3) A call with a dictionary unequal,
  by Python's \<^verbatim>\<open>==\<close>, to the present content of the dictionary object stored by the last
  call issues a GET, and (4) so does a call more than \<open>update_interval\<close> after the last time
  stamp.  (5) When the first GET on an object without a time stamp fails (no time stamp is set),
  the next call with the same dictionary issues a GET again, whenever it is made.
  ((2) to (5) for a positive maximum of the rate limit, so that the rate limit raises nothing.)
\<close>

theorem get_page_content_fetches:
  fixes st :: "'a scraper_scheme \<times> world"
  shows "(last_updated (fst st) = None
          \<and> last_updated (fst (snd (get_page_content p st))) \<noteq> None
          \<and> 0 \<le> d \<and> d \<le> update_interval (fst st) \<longrightarrow>
            requests_sent (snd (snd (get_page_content p (advance d (snd (get_page_content p st))))))
              = requests_sent (snd st) @ [objects (snd st) p]
            \<and> fst (get_page_content p (advance d (snd (get_page_content p st))))
              = fst (get_page_content p st))
       \<and> (rate_limit_ok (snd st)
          \<and> last_updated (fst (snd (get_page_content p st))) = Some t'
          \<and> clock (snd (snd (get_page_content p st))) + d' - t' \<le> update_interval (fst st)
          \<and> dict_eq (objs p') (objs p) \<longrightarrow>
            requests_sent (snd (snd (get_page_content p'
                (caller_sets objs (advance d' (snd (get_page_content p st)))))))
              = requests_sent (snd (snd (get_page_content p st)))
            \<and> fst (get_page_content p' (caller_sets objs (advance d' (snd (get_page_content p st)))))
              = fst (get_page_content p st))
       \<and> (rate_limit_ok (snd st) \<and> last_request (fst st) = Some q
          \<and> \<not> dict_eq (objects (snd st) p) (objects (snd st) q) \<longrightarrow>
            requests_sent (snd (snd (get_page_content p st)))
              = requests_sent (snd st) @ [objects (snd st) p])
       \<and> (rate_limit_ok (snd st) \<and> last_updated (fst st) = Some t
          \<and> update_interval (fst st) < clock (snd st) - t \<longrightarrow>
            requests_sent (snd (snd (get_page_content p st)))
              = requests_sent (snd st) @ [objects (snd st) p])
       \<and> (rate_limit_ok (snd st) \<and> last_updated (fst st) = None
          \<and> last_updated (fst (snd (get_page_content p st))) = None \<longrightarrow>
            requests_sent (snd (snd (get_page_content p (advance d'' (snd (get_page_content p st))))))
              = requests_sent (snd st) @ [objects (snd st) p, objects (snd st) p])"
proof (intro conjI impI)
  obtain self w where st: "st = (self, w)" by (cases st)
  obtain r self1 w1 where g: "get_page_content p st = (r, self1, w1)"
    by (cases "get_page_content p st")
  {
    assume a: "rate_limit_ok (snd st) \<and> last_request (fst st) = Some q
          \<and> \<not> dict_eq (objects (snd st) p) (objects (snd st) q)"
    then have "needs_update p (self, w)"
      by (auto simp: needs_update_def st split: option.splits)
    from get_page_content_miss [OF this] a
    show "requests_sent (snd (snd (get_page_content p st))) = requests_sent (snd st) @ [objects (snd st) p]"
      by (simp add: st)
  }
  {
    assume a: "rate_limit_ok (snd st) \<and> last_updated (fst st) = Some t
          \<and> update_interval (fst st) < clock (snd st) - t"
    then have "needs_update p (self, w)"
      by (auto simp: needs_update_def st split: option.splits)
    from get_page_content_miss [OF this] a
    show "requests_sent (snd (snd (get_page_content p st))) = requests_sent (snd st) @ [objects (snd st) p]"
      by (simp add: st)
  }
  {
    assume a: "last_updated (fst st) = None
          \<and> last_updated (fst (snd (get_page_content p st))) \<noteq> None
          \<and> 0 \<le> d \<and> d \<le> update_interval (fst st)"
    obtain u self' w' where u: "update_page_content p (self, w) = (u, self', w')"
      by (cases "update_page_content p (self, w)")
    from a have nu: "needs_update p (self, w)"
      by (simp add: needs_update_def st)
    have g': "get_page_content p st =
        (case u of Inl e \<Rightarrow> (Inl e, self', w')
         | Inr x \<Rightarrow> (Inr (page_content self'), self'\<lparr>last_request := Some p\<rparr>, w'))"
      using nu u by (simp add: get_page_content_def st split: sum.splits)
    from a g' obtain t0 where t0: "last_updated self' = Some t0"
      by (cases u) auto
    from update_page_content_fresh [OF u _ t0] a
    have f: "t0 = clock w'" "requests_sent w' = requests_sent w @ [objects w p]" "u = Inr ()"
      "update_interval self' = update_interval self"
      by (simp_all add: st)
    have g1: "get_page_content p st = (Inr (page_content self'), self'\<lparr>last_request := Some p\<rparr>, w')"
      using g' f by simp
    have "\<not> needs_update p (self'\<lparr>last_request := Some p\<rparr>, w'\<lparr>clock := clock w' + d\<rparr>)"
      using a t0 f by (simp add: needs_update_def st dict_eq_refl)
    from get_page_content_hit [OF this]
    have g2: "get_page_content p (advance d (snd (get_page_content p st)))
        = (Inr (page_content self'), self'\<lparr>last_request := Some p\<rparr>, w'\<lparr>clock := clock w' + d\<rparr>)"
      by (simp add: g1 advance_def)
    show "requests_sent (snd (snd (get_page_content p (advance d (snd (get_page_content p st))))))
              = requests_sent (snd st) @ [objects (snd st) p]"
      by (subst g2) (simp add: f st)
    show "fst (get_page_content p (advance d (snd (get_page_content p st))))
              = fst (get_page_content p st)"
      by (subst g2, subst g1) simp
  }
  {
    assume a: "rate_limit_ok (snd st)
          \<and> last_updated (fst (snd (get_page_content p st))) = Some t'
          \<and> clock (snd (snd (get_page_content p st))) + d' - t' \<le> update_interval (fst st)
          \<and> dict_eq (objs p') (objs p)"
    from get_page_content_state [OF _ g] a
    have r: "r = Inr (page_content self1)" and lr: "last_request self1 = Some p"
      and ui: "update_interval self1 = update_interval (fst st)"
      by simp_all
    have "\<not> needs_update p' (self1, w1\<lparr>clock := clock w1 + d', objects := objs\<rparr>)"
      using a g lr ui by (simp add: needs_update_def)
    from get_page_content_hit [OF this]
    have g2: "get_page_content p' (caller_sets objs (advance d' (snd (get_page_content p st))))
        = (Inr (page_content self1), self1\<lparr>last_request := Some p'\<rparr>,
           w1\<lparr>clock := clock w1 + d', objects := objs\<rparr>)"
      by (simp add: g advance_def caller_sets_def)
    show "requests_sent (snd (snd (get_page_content p'
                (caller_sets objs (advance d' (snd (get_page_content p st)))))))
              = requests_sent (snd (snd (get_page_content p st)))"
      by (subst g2) (simp add: g)
    show "fst (get_page_content p' (caller_sets objs (advance d' (snd (get_page_content p st)))))
              = fst (get_page_content p st)"
      by (subst g2) (simp add: g r)
  }
  {
    assume a: "rate_limit_ok (snd st) \<and> last_updated (fst st) = None
          \<and> last_updated (fst (snd (get_page_content p st))) = None"
    from a have nu: "needs_update p (self, w)"
      by (simp add: needs_update_def st)
    have s1: "requests_sent w1 = requests_sent w @ [objects w p]"
      using get_page_content_miss [OF nu] a g by (simp add: st)
    from get_page_content_state [OF _ g] a
    have ob: "objects w1 = objects w" and ok: "rate_limit_ok w1" by (simp_all add: st)
    have nu2: "needs_update p (self1, w1\<lparr>clock := clock w1 + d''\<rparr>)"
      using a g by (simp add: needs_update_def)
    have ok2: "rate_limit_ok (w1\<lparr>clock := clock w1 + d''\<rparr>)"
      using ok by (simp add: rate_limit_ok_def)
    have adv: "advance d'' (snd (get_page_content p st)) = (self1, w1\<lparr>clock := clock w1 + d''\<rparr>)"
      by (simp add: g advance_def)
    from get_page_content_miss [OF nu2 ok2]
    show "requests_sent (snd (snd (get_page_content p (advance d'' (snd (get_page_content p st))))))
              = requests_sent (snd st) @ [objects (snd st) p, objects (snd st) p]"
      unfolding adv by (simp add: s1 ob st)
  }
qed


text \<open>The definitions that a run of the cache on the example worlds unfolds.\<close>

lemmas get_eval = get_page_content_def needs_update_def update_page_content_def advance_def
  caller_sets_def check_request_rate_limit_def new_scraper_def world0_def server_down_def
  server_page_def server_until_def new_session_manager_def add_request_def print_error_def
  Let_def find_tag_def find_all_def

lemma params_differ: "\<not> dict_eq params1 params0" "dict_eq params0_again params0"
  by (simp_all add: dict_eq_def item_eq_def py_eq_def params0_def params1_def params0_again_def)

text \<open>
  Claim C3 as stated fails in two ways.  When the first GET fails on an object that has not
  fetched before, \<open>last_updated\<close> stays \<open>None\<close>, so a second call with the same dictionary
  at the same instant issues a second GET.  And when the caller changes the dictionary object
  it has passed and passes it again within the interval, the call issues no GET although the
  mapping differs from the one fetched: the object stored as \<open>last_request\<close> is the one
  passed, so the comparison is of the dictionary with itself.
\<close>

theorem get_page_content_refetch_counterexample:
  "requests_sent (snd (snd (get_page_content 0
      (advance 0 (snd (get_page_content 0 (new_scraper 60, world0 server_down)))))))
   = [params0, params0]
   \<and> requests_sent (snd (snd (get_page_content 0
      (caller_sets (\<lambda>a. params1)
        (advance 30 (snd (get_page_content 0 (new_scraper 60, world0 (server_page page_hello)))))))))
   = [params0]
   \<and> \<not> dict_eq params1 params0"
  by (simp add: get_eval page_hello_def dict_eq_refl params_differ)

lemma first_get_page_hello:
  "get_page_content 0 (new_scraper 60, world0 (server_page page_hello)) =
     (Inr (Some page_hello),
      \<lparr>last_request = Some 0, page_content = Some page_hello, update_interval = 60,
        last_updated = Some 0\<rparr>,
      (world0 (server_page page_hello))
        \<lparr>manager := \<lparr>request_history = [0], max_requests_per_second = 15, max_per = 30\<rparr>,
         requests_sent := [params0]\<rparr>)"
  by (simp add: get_eval page_hello_def)

lemma first_get_down:
  "get_page_content 0 (new_scraper 60, world0 server_down) =
     (Inr None,
      \<lparr>last_request = Some 0, page_content = None, update_interval = 60, last_updated = None\<rparr>,
      (world0 server_down)
        \<lparr>requests_sent := [params0], stdout := [''Error fetching data: connection refused'']\<rparr>)"
  by (simp add: get_eval)

text \<open>The server answers every GET with a page: the same dictionary 30 seconds later is a
  hit, and so is another dictionary object equal to it (the keys in another order, the
  \<open>meetId\<close> a float); a dictionary with another \<open>meetId\<close> 30 seconds later and the same
  dictionary 61 seconds later are fetched.  The
  server is down: the same dictionary 5 seconds later is fetched again.\<close>

theorem get_page_content_fetches_witness:
  "requests_sent (snd (snd (get_page_content 0
      (advance 30 (snd (get_page_content 0 (new_scraper 60, world0 (server_page page_hello)))))))) = [params0]
   \<and> requests_sent (snd (snd (get_page_content 1
      (caller_sets (\<lambda>a. if a = 1 then params0_again else params0)
        (advance 30 (snd (get_page_content 0 (new_scraper 60, world0 (server_page page_hello))))))))) = [params0]
   \<and> requests_sent (snd (snd (get_page_content 1
      (advance 30 (snd (get_page_content 0 (new_scraper 60, world0 (server_page page_hello)))))))) = [params0, params1]
   \<and> requests_sent (snd (snd (get_page_content 0
      (advance 61 (snd (get_page_content 0 (new_scraper 60, world0 (server_page page_hello)))))))) = [params0, params0]
   \<and> requests_sent (snd (snd (get_page_content 0
      (advance 5 (snd (get_page_content 0 (new_scraper 60, world0 server_down))))))) = [params0, params0]"
proof -
  let ?st0 = "(new_scraper 60, world0 (server_page page_hello))"
  let ?st1 = "snd (get_page_content 0 ?st0)"
  have ok: "rate_limit_ok (world0 srv)" for srv
    by (simp add: rate_limit_ok_def world0_def new_session_manager_def)
  have a: "requests_sent (snd (snd (get_page_content 0 (advance 30 ?st1)))) = [params0]"
    using get_page_content_fetches [where st = ?st0 and p = 0 and d = 30]
    by (simp add: first_get_page_hello) (simp add: new_scraper_def world0_def)
  have b: "requests_sent (snd (snd (get_page_content 1
      (caller_sets (\<lambda>a. if a = 1 then params0_again else params0) (advance 30 ?st1))))) = [params0]"
    using get_page_content_fetches [where st = ?st0 and p = 0 and p' = 1 and d' = 30 and t' = 0
        and objs = "\<lambda>a. if a = 1 then params0_again else params0"]
    by (simp add: first_get_page_hello ok params_differ) (simp add: new_scraper_def world0_def)
  have c: "requests_sent (snd (snd (get_page_content 1 (advance 30 ?st1)))) = [params0, params1]"
    using get_page_content_fetches [where st = "advance 30 ?st1" and p = 1 and q = 0]
    by (simp add: first_get_page_hello advance_def params_differ rate_limit_ok_def)
       (simp add: world0_def params_differ)
  have d: "requests_sent (snd (snd (get_page_content 0 (advance 61 ?st1)))) = [params0, params0]"
    using get_page_content_fetches [where st = "advance 61 ?st1" and p = 0 and t = 0]
    by (simp add: first_get_page_hello advance_def rate_limit_ok_def) (simp add: world0_def)
  have e: "requests_sent (snd (snd (get_page_content 0
      (advance 5 (snd (get_page_content 0 (new_scraper 60, world0 server_down))))))) = [params0, params0]"
    using get_page_content_fetches [where st = "(new_scraper 60, world0 server_down)" and p = 0
        and d'' = 5]
    by (simp add: first_get_down ok) (simp add: new_scraper_def world0_def)
  from a b c d e show ?thesis by simp
qed

text \<open>
  Claim C4.  A refresh that fails does not leave the cached page at \<open>None\<close>.  First case: a
  page was fetched, 100 seconds later the server is down; the failure is printed and the call
  returns the page fetched before.  Second case: the body of the answer has no \<open>body\<close>
  element; the failure is printed and the call returns that page.  (The dictionary passed is
  the object at reference 0 of the example world, \<open>params0\<close>.)
\<close>

theorem failed_refresh_keeps_document:
  "fst (get_page_content 0
      (advance 100 (snd (get_page_content 0 (new_scraper 60, world0 (server_until 10 page_hello))))))
     = Inr (Some page_hello)
   \<and> stdout (snd (snd (get_page_content 0
      (advance 100 (snd (get_page_content 0 (new_scraper 60, world0 (server_until 10 page_hello))))))))
     = [''Error fetching data: connection refused'']
   \<and> fst (get_page_content 0 (new_scraper 60, world0 (server_page page_empty)))
     = Inr (Some page_empty)
   \<and> stdout (snd (snd (get_page_content 0 (new_scraper 60, world0 (server_page page_empty)))))
     = [''Error fetching data: Empty response'']"
  by (simp add: get_eval dict_eq_refl page_empty_def page_hello_def)

text \<open>
  Claim C7.  A refresh whose answer has no \<open>body\<close> element is reported as a failure and has
  appended a timestamp to the request history all the same.  The lemma after it gives the
  history after any refresh: nothing is appended when the GET raises or the status is an error.
\<close>

theorem empty_response_consumes_quota:
  "stdout (snd (snd (update_page_content 0 (new_scraper 60, world0 (server_page page_empty)))))
     = [''Error fetching data: Empty response'']
   \<and> request_history (manager (snd (snd (update_page_content 0
        (new_scraper 60, world0 (server_page page_empty)))))) = [0]"
  by (simp add: get_eval page_empty_def)

lemma update_page_content_history:
  assumes "check_request_rate_limit (clock w) (manager w) = Inr (slept, sm)"
  shows "request_history (manager (snd (snd (update_page_content p (self, w))))) =
         (case server w (objects w p) (clock w + slept) of
            ConnectionFailed msg \<Rightarrow> request_history sm
          | HttpStatusError msg \<Rightarrow> request_history sm
          | Page doc \<Rightarrow> request_history sm @ [clock w + slept])"
  using assms
  by (auto simp: update_page_content_def Let_def print_error_def add_request_def
           split: http_response.splits)

subsection \<open>The extractors\<close>

text \<open>With a positive maximum of the rate limit, the fetch of a method returns the cached
  document, whatever it is.\<close>

lemma new_dict_ok: "rate_limit_ok (snd (new_dict d w)) = rate_limit_ok w"
  by (simp add: new_dict_def rate_limit_ok_def)

lemma get_page_for_returns:
  assumes "rate_limit_ok (snd st)"
  shows "fst (get_page_for d st) = Inr (page_content (fst (snd (get_page_for d st))))"
proof -
  obtain p w where n: "new_dict d (snd st) = (p, w)" by (cases "new_dict d (snd st)")
  obtain r self1 w1 where g: "get_page_content p (fst st, w) = (r, self1, w1)"
    by (cases "get_page_content p (fst st, w)")
  have "rate_limit_ok (snd (fst st, w))"
    using new_dict_ok [of d "snd st"] assms n by simp
  from get_page_content_state [OF this g] show ?thesis
    by (simp add: get_page_for_def n g)
qed

lemma from_None:
  "list_personal_bests_from L (Inr None) = Inr []"
  "athlete_list_meets_from L (Inr None) = Inr []"
  "list_clubs_from L (Inr None) = Inr []"
  "list_events_from (Inr None) = Inr []"
  "list_races_from L (Inr None) = Inr []"
  "list_results_from L race_id (Inr None) = Inr []"
  "get_time_from (Inr None) = Inr None"
  "list_time_periods_from L (Inr None) = Inr []"
  "list_nations_from L (Inr None) = Inr []"
  "meets_list_meets_from L (Inr None) = Inr []"
  "list_athletes_from L (Inr None) = Inr []"
  by (simp_all add: list_personal_bests_from_def athlete_list_meets_from_def list_clubs_from_def
      list_events_from_def list_races_from_def list_results_from_def get_time_from_def
      list_time_periods_from_def list_nations_from_def meets_list_meets_from_def
      list_athletes_from_def try_locate_def then_do_def find_on_def find_all_on_def)

lemma no_document':
  assumes "rate_limit_ok (snd st)"
    and "page_content (fst (snd (get_page_for d st))) = None"
  shows "fst (get_page_for d st) = Inr None"
  using get_page_for_returns [OF assms(1), of d] assms(2) by simp

lemma with_document:
  assumes "rate_limit_ok (snd st)"
    and "page_content (fst (snd (get_page_for d st))) = Some soup"
  shows "fst (get_page_for d st) = Inr (Some soup)"
  using get_page_for_returns [OF assms(1), of d] assms(2) by simp

lemma case_prod_fst_snd: "(case p of (a, b) \<Rightarrow> (f a, b)) = (f (fst p), snd p)"
  by (cases p) simp

text \<open>
  Claim C2.  For each of the eleven extractor methods: when the rate limit is configured with a
  positive maximum and the cached document is \<open>None\<close> after the fetch of the call (the fetch
  failed and nothing was cached), the method returns the empty list, and \<open>get_time\<close> returns
  \<open>None\<close>; no exception leaves the method.  \<open>list_athletes\<close> is called with one of its three
  gender codes.
\<close>

theorem extractors_without_document:
  "(rate_limit_ok (snd sa) \<and> page_content (fst (snd (athlete_list_personal_bests L season sa))) = None
      \<longrightarrow> fst (athlete_list_personal_bests L season sa) = Inr [])
   \<and> (rate_limit_ok (snd sa) \<and> page_content (fst (snd (athlete_list_meets L sa))) = None
      \<longrightarrow> fst (athlete_list_meets L sa) = Inr [])
   \<and> (rate_limit_ok (snd sm) \<and> page_content (fst (snd (meet_list_clubs L sm))) = None
      \<longrightarrow> fst (meet_list_clubs L sm) = Inr [])
   \<and> (rate_limit_ok (snd sm) \<and> page_content (fst (snd (meet_list_events sm))) = None
      \<longrightarrow> fst (meet_list_events sm) = Inr [])
   \<and> (rate_limit_ok (snd sm) \<and> page_content (fst (snd (meet_list_races L event_id gender sm))) = None
      \<longrightarrow> fst (meet_list_races L event_id gender sm) = Inr [])
   \<and> (rate_limit_ok (snd sm) \<and> page_content (fst (snd (meet_list_results L event_id gender race_id sm))) = None
      \<longrightarrow> fst (meet_list_results L event_id gender race_id sm) = Inr [])
   \<and> (rate_limit_ok (snd sr) \<and> page_content (fst (snd (result_get_time sr))) = None
      \<longrightarrow> fst (result_get_time sr) = Inr None)
   \<and> (rate_limit_ok (snd ss) \<and> page_content (fst (snd (meets_list_time_periods L ss))) = None
      \<longrightarrow> fst (meets_list_time_periods L ss) = Inr [])
   \<and> (rate_limit_ok (snd ss) \<and> page_content (fst (snd (meets_list_nations L ss))) = None
      \<longrightarrow> fst (meets_list_nations L ss) = Inr [])
   \<and> (rate_limit_ok (snd ss) \<and> page_content (fst (snd (meets_list_meets L nation_id time_period_id ss))) = None
      \<longrightarrow> fst (meets_list_meets L nation_id time_period_id ss) = Inr [])
   \<and> (rate_limit_ok (snd sc) \<and> 0 \<le> g \<and> g \<le> 2
       \<and> page_content (fst (snd (club_list_athletes L g sc))) = None
      \<longrightarrow> fst (club_list_athletes L g sc) = Inr [])"
proof -
  have h1: "(rate_limit_ok (snd sa) \<and> page_content (fst (snd (athlete_list_personal_bests L season sa))) = None
      \<longrightarrow> fst (athlete_list_personal_bests L season sa) = Inr [])"
    unfolding athlete_list_personal_bests_def case_prod_fst_snd
    by (simp add: no_document' from_None)
  have h2: "(rate_limit_ok (snd sa) \<and> page_content (fst (snd (athlete_list_meets L sa))) = None
      \<longrightarrow> fst (athlete_list_meets L sa) = Inr [])"
    unfolding athlete_list_meets_def case_prod_fst_snd
    by (simp add: no_document' from_None)
  have h3: "(rate_limit_ok (snd sm) \<and> page_content (fst (snd (meet_list_clubs L sm))) = None
      \<longrightarrow> fst (meet_list_clubs L sm) = Inr [])"
    unfolding meet_list_clubs_def case_prod_fst_snd
    by (simp add: no_document' from_None)
  have h4: "(rate_limit_ok (snd sm) \<and> page_content (fst (snd (meet_list_events sm))) = None
      \<longrightarrow> fst (meet_list_events sm) = Inr [])"
    unfolding meet_list_events_def case_prod_fst_snd
    by (simp add: no_document' from_None)
  have h5: "(rate_limit_ok (snd sm) \<and> page_content (fst (snd (meet_list_races L event_id gender sm))) = None
      \<longrightarrow> fst (meet_list_races L event_id gender sm) = Inr [])"
    unfolding meet_list_races_def case_prod_fst_snd
    by (simp add: no_document' from_None)
  have h6: "(rate_limit_ok (snd sm) \<and> page_content (fst (snd (meet_list_results L event_id gender race_id sm))) = None
      \<longrightarrow> fst (meet_list_results L event_id gender race_id sm) = Inr [])"
    unfolding meet_list_results_def case_prod_fst_snd
    by (simp add: no_document' from_None)
  have h7: "(rate_limit_ok (snd sr) \<and> page_content (fst (snd (result_get_time sr))) = None
      \<longrightarrow> fst (result_get_time sr) = Inr None)"
    unfolding result_get_time_def case_prod_fst_snd
    by (simp add: no_document' from_None)
  have h8: "(rate_limit_ok (snd ss) \<and> page_content (fst (snd (meets_list_time_periods L ss))) = None
      \<longrightarrow> fst (meets_list_time_periods L ss) = Inr [])"
    unfolding meets_list_time_periods_def case_prod_fst_snd
    by (simp add: no_document' from_None)
  have h9: "(rate_limit_ok (snd ss) \<and> page_content (fst (snd (meets_list_nations L ss))) = None
      \<longrightarrow> fst (meets_list_nations L ss) = Inr [])"
    unfolding meets_list_nations_def case_prod_fst_snd
    by (simp add: no_document' from_None)
  have h10: "(rate_limit_ok (snd ss) \<and> page_content (fst (snd (meets_list_meets L nation_id time_period_id ss))) = None
      \<longrightarrow> fst (meets_list_meets L nation_id time_period_id ss) = Inr [])"
    unfolding meets_list_meets_def case_prod_fst_snd
    by (simp add: no_document' from_None)
  have h11: "(rate_limit_ok (snd sc) \<and> 0 \<le> g \<and> g \<le> 2
       \<and> page_content (fst (snd (club_list_athletes L g sc))) = None
      \<longrightarrow> fst (club_list_athletes L g sc) = Inr [])"
  proof (intro impI, elim conjE)
    assume ok: "rate_limit_ok (snd sc)" and g: "0 \<le> g" "g \<le> 2"
      and none: "page_content (fst (snd (club_list_athletes L g sc))) = None"
    from g obtain name where ix: "py_index [''CURRENT'', ''ALL_MEN'', ''All_WOMEN''] g = Inr name"
      by (auto simp: py_index_def)
    from none ok show "fst (club_list_athletes L g sc) = Inr []"
      unfolding club_list_athletes_def ix sum.case case_prod_fst_snd
      by (simp add: no_document' from_None)
  qed
  show ?thesis
    by (intro conjI) (rule h1 h2 h3 h4 h5 h6 h7 h8 h9 h10 h11)+
qed


lemma down_defs:
  "rate_limit_ok (world0 srv)"
  by (simp add: rate_limit_ok_def world0_def new_session_manager_def)

lemma get_page_for_down:
  "last_updated self = None \<Longrightarrow>
   get_page_for d (self, world0 server_down) =
     (Inr (page_content self), self\<lparr>last_request := Some 2\<rparr>,
      (world0 server_down)\<lparr>objects := (objects (world0 server_down))(2 := d), next_object := 3,
         requests_sent := [d], stdout := [''Error fetching data: connection refused'']\<rparr>)"
  by (simp add: get_page_for_def new_dict_def get_page_content_def needs_update_def
      update_page_content_def check_request_rate_limit_def world0_def server_down_def
      new_session_manager_def print_error_def Let_def numeral_3_eq_3)

lemma fresh_objects:
  "last_updated athlete0 = None" "page_content athlete0 = None"
  "last_updated meet0 = None" "page_content meet0 = None"
  "last_updated result0 = None" "page_content result0 = None"
  "last_updated club0 = None" "page_content club0 = None"
  "last_updated (new_scraper 60) = None" "page_content (new_scraper 60) = None"
  by (simp_all add: athlete0_def meet0_def result0_def club0_def new_scraper_def
      scraper.defs athlete.defs meet.defs result.defs club.defs)

text \<open>All eleven methods on fresh objects while the server is down.\<close>

theorem extractors_without_document_witness:
  "fst (athlete_list_personal_bests lib0 (PStr []) (athlete0, world0 server_down)) = Inr []
   \<and> fst (athlete_list_meets lib0 (athlete0, world0 server_down)) = Inr []
   \<and> fst (meet_list_clubs lib0 (meet0, world0 server_down)) = Inr []
   \<and> fst (meet_list_events (meet0, world0 server_down)) = Inr []
   \<and> fst (meet_list_races lib0 (PInt 1) (PInt 1) (meet0, world0 server_down)) = Inr []
   \<and> fst (meet_list_results lib0 (PInt 1) (PInt 1) 1 (meet0, world0 server_down)) = Inr []
   \<and> fst (result_get_time (result0, world0 server_down)) = Inr None
   \<and> fst (meets_list_time_periods lib0 (new_scraper 60, world0 server_down)) = Inr []
   \<and> fst (meets_list_nations lib0 (new_scraper 60, world0 server_down)) = Inr []
   \<and> fst (meets_list_meets lib0 PNone (PStr ''RECENT'') (new_scraper 60, world0 server_down)) = Inr []
   \<and> fst (club_list_athletes lib0 0 (club0, world0 server_down)) = Inr []"
  using extractors_without_document
    [of "(athlete0, world0 server_down)" lib0 "PStr []" "(meet0, world0 server_down)"
        "PInt 1" "PInt 1" 1 "(result0, world0 server_down)" "(new_scraper 60, world0 server_down)"
        PNone "PStr ''RECENT''" "(club0, world0 server_down)" 0]
  by (simp add: down_defs athlete_list_personal_bests_def athlete_list_meets_def
      meet_list_clubs_def meet_list_events_def meet_list_races_def meet_list_results_def
      result_get_time_def meets_list_time_periods_def meets_list_nations_def
      meets_list_meets_def club_list_athletes_def py_index_def
      get_page_for_down fresh_objects)

text \<open>
  Claim C1.  On a fetched page with a body and no table at all, \<open>list_events\<close> raises
  \<open>AttributeError\<close> (the \<open>find\<close> of the navigation table returns \<open>None\<close> inside the
  \<open>try\<close> block, and the method call on it comes after the block) and \<open>list_results\<close>
  raises \<open>IndexError\<close> (the list of result tables is empty).  The two lemmas after it give
  the same for every page without the table.
\<close>

theorem missing_table_raises:
  "list_events_from (Inr (Some page_hello)) = Inl AttributeError
   \<and> list_results_from lib0 1 (Inr (Some page_hello)) = Inl IndexError"
  by (simp add: list_events_from_def list_results_from_def try_locate_def then_do_def
      find_on_def find_all_on_def find_tag_def find_all_def find_menu_def py_index_def
      page_hello_def)

lemma list_events_without_navigation:
  "find_tag soup ''table'' [(''class'', [''navigation''])] = None \<Longrightarrow>
   list_events_from (Inr (Some soup)) = Inl AttributeError"
  by (simp add: list_events_from_def try_locate_def then_do_def find_on_def find_menu_def)

lemma list_results_without_table:
  "race_id - 1 < - int (length (result_tables soup)) \<or> int (length (result_tables soup)) \<le> race_id - 1 \<Longrightarrow>
   list_results_from L race_id (Inr (Some soup)) = Inl IndexError"
  by (auto simp: list_results_from_def try_locate_def then_do_def find_all_on_def py_index_def
      result_tables_def)

text \<open>The loop of \<open>list_races\<close> numbers the tables from 1 in the order of the list.\<close>

lemma for_each_race_entries:
  assumes "for_each (race_entry L) (zip [k..<k + length ts] ts) = Inr races"
  shows "length races = length ts
       \<and> (\<forall>i<length ts. \<exists>name. race_name_of L (ts ! i) = Inr name
            \<and> races ! i = [(''race_id'', PInt (int (k + i) + 1)), (''race_name'', PStr name)])"
  using assms
proof (induction ts arbitrary: k races)
  case Nil
  then show ?case by simp
next
  case (Cons t ts)
  have "[k..<k + length (t # ts)] = k # [Suc k..<Suc k + length ts]"
    by (subst upt_conv_Cons) simp_all
  then have z: "zip [k..<k + length (t # ts)] (t # ts) = (k, t) # zip [Suc k..<Suc k + length ts] ts"
    by simp
  define zs where "zs = zip [Suc k..<Suc k + length ts] ts"
  have p: "for_each (race_entry L) ((k, t) # zs) = Inr races"
    using Cons.prems unfolding z zs_def .
  obtain e where e: "race_entry L (k, t) = Inr e"
    using p by (cases "race_entry L (k, t)") simp_all
  obtain rest where rest': "for_each (race_entry L) zs = Inr rest" and races': "races = e @ rest"
    using p e by (cases "for_each (race_entry L) zs") simp_all
  from e obtain name where nm: "race_name_of L t = Inr name"
    and e': "e = [[(''race_id'', PInt (int k + 1)), (''race_name'', PStr name)]]"
    by (auto simp: race_entry_def then_do_def split: sum.splits)
  have rest: "for_each (race_entry L) (zip [Suc k..<Suc k + length ts] ts) = Inr rest"
    using rest' by (simp only: zs_def)
  have races: "races = [(''race_id'', PInt (int k + 1)), (''race_name'', PStr name)] # rest"
    by (simp add: races' e')
  from Cons.IH [OF rest] have len: "length rest = length ts"
    and ih: "\<And>i. i < length ts \<Longrightarrow> \<exists>name. race_name_of L (ts ! i) = Inr name
            \<and> rest ! i = [(''race_id'', PInt (int (Suc k + i) + 1)), (''race_name'', PStr name)]"
    by auto
  show ?case
  proof (intro conjI allI impI)
    show "length races = length (t # ts)" by (simp add: races len)
  next
    fix i assume i: "i < length (t # ts)"
    show "\<exists>name. race_name_of L ((t # ts) ! i) = Inr name
            \<and> races ! i = [(''race_id'', PInt (int (k + i) + 1)), (''race_name'', PStr name)]"
    proof (cases i)
      case 0
      with nm races show ?thesis by simp
    next
      case (Suc j)
      with i have "j < length ts" by simp
      from ih [OF this] Suc races show ?thesis by simp
    qed
  qed
qed

lemma list_races_from_page:
  "list_races_from L (Inr (Some soup)) =
     for_each (race_entry L) (zip [0..<length (result_tables soup)] (result_tables soup))"
  by (simp add: list_races_from_def try_locate_def then_do_def find_all_on_def result_tables_def)

lemma list_results_from_page:
  "i < length (result_tables soup) \<Longrightarrow>
   list_results_from L (int i + 1) (Inr (Some soup)) = results_of_table L (result_tables soup ! i)"
  by (simp add: list_results_from_def try_locate_def then_do_def find_all_on_def result_tables_def
      py_index_def)


text \<open>Two methods of one \<open>Meet\<close> called with the same event and gender build equal
  dictionaries, so the second call within the update interval reads the cached page.\<close>

lemma get_page_content_meet_id:
  fixes st :: "meet \<times> world"
  shows "meet_id (fst (snd (get_page_content p st))) = meet_id (fst st)"
  by (cases st)
     (auto simp: get_page_content_def update_page_content_def Let_def
           split: sum.splits prod.splits http_response.splits if_splits)

lemma get_page_for_meet_id:
  fixes st :: "meet \<times> world"
  shows "meet_id (fst (snd (get_page_for d st))) = meet_id (fst st)"
  by (simp add: get_page_for_def get_page_content_meet_id split: prod.splits)

lemma get_page_for_again:
  assumes ok: "rate_limit_ok (snd st)"
    and t: "last_updated (fst (snd (get_page_for D st))) = Some t"
    and d: "clock (snd (snd (get_page_for D st))) + d - t \<le> update_interval (fst st)"
  shows "requests_sent (snd (snd (get_page_for D (advance d (snd (get_page_for D st))))))
           = requests_sent (snd (snd (get_page_for D st)))
       \<and> page_content (fst (snd (get_page_for D (advance d (snd (get_page_for D st))))))
           = page_content (fst (snd (get_page_for D st)))
       \<and> fst (get_page_for D (advance d (snd (get_page_for D st)))) = fst (get_page_for D st)"
proof -
  let ?p = "next_object (snd st)"
  let ?w = "(snd st)\<lparr>objects := (objects (snd st))(?p := D), next_object := Suc ?p\<rparr>"
  obtain r self1 w1 where g: "get_page_content ?p (fst st, ?w) = (r, self1, w1)"
    by (cases "get_page_content ?p (fst st, ?w)")
  have f: "get_page_for D st = (r, self1, w1)"
    by (simp add: get_page_for_def new_dict_def g)
  have ok': "rate_limit_ok (snd (fst st, ?w))"
    using ok by (simp add: rate_limit_ok_def)
  from get_page_content_state [OF ok' g]
  have r: "r = Inr (page_content self1)" and lr: "last_request self1 = Some ?p"
    and ui: "update_interval self1 = update_interval (fst st)"
    and ob: "objects w1 = objects ?w" and no: "next_object w1 = next_object ?w"
    by simp_all
  let ?w2 = "w1\<lparr>clock := clock w1 + d, objects := (objects w1)(Suc ?p := D),
                 next_object := Suc (Suc ?p)\<rparr>"
  have "\<not> needs_update (Suc ?p) (self1, ?w2)"
    using t d f lr ui ob by (simp add: needs_update_def dict_eq_refl)
  from get_page_content_hit [OF this]
  have h: "get_page_content (Suc ?p) (self1, ?w2)
      = (Inr (page_content self1), self1\<lparr>last_request := Some (Suc ?p)\<rparr>, ?w2)" .
  have adv: "advance d (snd (get_page_for D st)) = (self1, w1\<lparr>clock := clock w1 + d\<rparr>)"
    by (simp add: f advance_def)
  have g2: "get_page_for D (advance d (snd (get_page_for D st)))
      = (Inr (page_content self1), self1\<lparr>last_request := Some (Suc ?p)\<rparr>, ?w2)"
    unfolding adv by (simp add: get_page_for_def new_dict_def no h)
  show ?thesis
    unfolding g2 by (simp add: f r)
qed

lemma meet_list_races_unfold:
  "meet_list_races L e g st =
     (list_races_from L (fst (get_page_for [(''page'', PStr ''meetDetail''),
          (''meetId'', meet_id (fst st)), (''gender'', g), (''styleId'', e)] st)),
      snd (get_page_for [(''page'', PStr ''meetDetail''),
          (''meetId'', meet_id (fst st)), (''gender'', g), (''styleId'', e)] st))"
  by (simp add: meet_list_races_def split: prod.splits)

lemma meet_list_results_unfold:
  "meet_list_results L e g rid st =
     (list_results_from L rid (fst (get_page_for [(''page'', PStr ''meetDetail''),
          (''meetId'', meet_id (fst st)), (''gender'', g), (''styleId'', e)] st)),
      snd (get_page_for [(''page'', PStr ''meetDetail''),
          (''meetId'', meet_id (fst st)), (''gender'', g), (''styleId'', e)] st))"
  by (simp add: meet_list_results_def split: prod.splits)

lemma meet_list_races_on_page:
  assumes "rate_limit_ok (snd st)"
    and "page_content (fst (snd (meet_list_races L e g st))) = Some soup"
  shows "fst (meet_list_races L e g st) =
     for_each (race_entry L) (zip [0..<length (result_tables soup)] (result_tables soup))"
  using assms with_document [OF assms(1), of _ soup]
  by (simp add: meet_list_races_unfold list_races_from_page)

lemma meet_list_results_on_page:
  assumes "rate_limit_ok (snd st)"
    and "page_content (fst (snd (meet_list_results L e g (int i + 1) st))) = Some soup"
    and "i < length (result_tables soup)"
  shows "fst (meet_list_results L e g (int i + 1) st) = results_of_table L (result_tables soup ! i)"
  using assms with_document [OF assms(1), of _ soup]
  by (simp add: meet_list_results_unfold list_results_from_page)

lemma meet_list_results_after_races:
  fixes st :: "meet \<times> world"
  assumes "rate_limit_ok (snd st)"
    and "last_updated (fst (snd (meet_list_races L e g st))) = Some t"
    and "clock (snd (snd (meet_list_races L e g st))) + d - t \<le> update_interval (fst st)"
  shows "requests_sent (snd (snd (meet_list_results L e g rid
               (advance d (snd (meet_list_races L e g st))))))
           = requests_sent (snd (snd (meet_list_races L e g st)))
       \<and> page_content (fst (snd (meet_list_results L e g rid
               (advance d (snd (meet_list_races L e g st))))))
           = page_content (fst (snd (meet_list_races L e g st)))
       \<and> fst (meet_list_results L e g rid (advance d (snd (meet_list_races L e g st))))
           = list_results_from L rid (Inr (page_content (fst (snd (meet_list_races L e g st)))))"
proof -
  let ?D = "[(''page'', PStr ''meetDetail''), (''meetId'', meet_id (fst st)),
             (''gender'', g), (''styleId'', e)]"
  have s: "snd (meet_list_races L e g st) = snd (get_page_for ?D st)"
    by (simp add: meet_list_races_unfold)
  have m: "meet_id (fst (advance d (snd (get_page_for ?D st)))) = meet_id (fst st)"
    by (simp add: advance_def get_page_for_meet_id)
  have u: "meet_list_results L e g rid (advance d (snd (get_page_for ?D st))) =
     (list_results_from L rid (fst (get_page_for ?D (advance d (snd (get_page_for ?D st))))),
      snd (get_page_for ?D (advance d (snd (get_page_for ?D st)))))"
    by (subst meet_list_results_unfold) (simp only: m)
  from assms(2,3) have t: "last_updated (fst (snd (get_page_for ?D st))) = Some t"
    and c: "clock (snd (snd (get_page_for ?D st))) + d - t \<le> update_interval (fst st)"
    by (simp_all only: s)
  from get_page_for_again [OF assms(1) t c] get_page_for_returns [OF assms(1), of ?D]
  show ?thesis
    unfolding s u by simp
qed

text \<open>
  Claim C10.  For a positive maximum of the rate limit.  (1) Whenever \<open>list_races\<close> returns
  with a page \<open>soup\<close> in the cache, it returns one race per result table of that page, in
  document order; the race at position \<open>i\<close> (from 0) has \<open>race_id\<close> \<open>i + 1\<close> and the name
  in the head of that table.  (2) \<open>list_results\<close> with the \<open>race_id\<close> \<open>i + 1\<close> returns what
  the rows of the table at position \<open>i\<close> of the page it has read give.  (3) \<open>list_results\<close>
  called for the same event and gender after \<open>list_races\<close>, while the time stamp that
  \<open>list_races\<close> leaves is at most \<open>update_interval\<close> old, issues no GET and reads the page
  that \<open>list_races\<close> read, so that (4) with the \<open>race_id\<close> \<open>i + 1\<close> it returns what the rows
  of the table give that \<open>list_races\<close> numbered \<open>i + 1\<close>.
\<close>

theorem race_ids_follow_document_order:
  fixes st :: "meet \<times> world"
  assumes "rate_limit_ok (snd st)"
  shows "(page_content (fst (snd (meet_list_races L e g st))) = Some soup
          \<and> fst (meet_list_races L e g st) = Inr races \<longrightarrow>
            length races = length (result_tables soup)
            \<and> (\<forall>i<length (result_tables soup).
                 \<exists>name. race_name_of L (result_tables soup ! i) = Inr name
                   \<and> races ! i = [(''race_id'', PInt (int i + 1)), (''race_name'', PStr name)]))
       \<and> (page_content (fst (snd (meet_list_results L e g (int i + 1) st))) = Some soup
          \<and> i < length (result_tables soup) \<longrightarrow>
            fst (meet_list_results L e g (int i + 1) st)
              = results_of_table L (result_tables soup ! i))
       \<and> (last_updated (fst (snd (meet_list_races L e g st))) = Some t
          \<and> clock (snd (snd (meet_list_races L e g st))) + d - t \<le> update_interval (fst st) \<longrightarrow>
            requests_sent (snd (snd (meet_list_results L e g rid
                (advance d (snd (meet_list_races L e g st))))))
              = requests_sent (snd (snd (meet_list_races L e g st)))
            \<and> page_content (fst (snd (meet_list_results L e g rid
                (advance d (snd (meet_list_races L e g st))))))
              = page_content (fst (snd (meet_list_races L e g st))))
       \<and> (last_updated (fst (snd (meet_list_races L e g st))) = Some t
          \<and> clock (snd (snd (meet_list_races L e g st))) + d - t \<le> update_interval (fst st)
          \<and> page_content (fst (snd (meet_list_races L e g st))) = Some soup
          \<and> i < length (result_tables soup) \<longrightarrow>
            fst (meet_list_results L e g (int i + 1) (advance d (snd (meet_list_races L e g st))))
              = results_of_table L (result_tables soup ! i))"
proof (intro conjI impI)
  assume a: "page_content (fst (snd (meet_list_races L e g st))) = Some soup
          \<and> fst (meet_list_races L e g st) = Inr races"
  with meet_list_races_on_page [OF assms, of L e g soup]
  have "for_each (race_entry L)
      (zip [0..<0 + length (result_tables soup)] (result_tables soup)) = Inr races"
    by simp
  from for_each_race_entries [OF this]
  show "length races = length (result_tables soup)"
    and "\<forall>i<length (result_tables soup).
           \<exists>name. race_name_of L (result_tables soup ! i) = Inr name
             \<and> races ! i = [(''race_id'', PInt (int i + 1)), (''race_name'', PStr name)]"
    by simp_all
next
  assume "page_content (fst (snd (meet_list_results L e g (int i + 1) st))) = Some soup
          \<and> i < length (result_tables soup)"
  with meet_list_results_on_page [OF assms, of L e g i soup]
  show "fst (meet_list_results L e g (int i + 1) st) = results_of_table L (result_tables soup ! i)"
    by simp
next
  assume a: "last_updated (fst (snd (meet_list_races L e g st))) = Some t
          \<and> clock (snd (snd (meet_list_races L e g st))) + d - t \<le> update_interval (fst st)"
  then have t: "last_updated (fst (snd (meet_list_races L e g st))) = Some t"
    and c: "clock (snd (snd (meet_list_races L e g st))) + d - t \<le> update_interval (fst st)"
    by simp_all
  from meet_list_results_after_races [OF assms t c, of rid]
  show "requests_sent (snd (snd (meet_list_results L e g rid
                (advance d (snd (meet_list_races L e g st))))))
              = requests_sent (snd (snd (meet_list_races L e g st)))"
    and "page_content (fst (snd (meet_list_results L e g rid
                (advance d (snd (meet_list_races L e g st))))))
              = page_content (fst (snd (meet_list_races L e g st)))"
    by simp_all
next
  assume a: "last_updated (fst (snd (meet_list_races L e g st))) = Some t
          \<and> clock (snd (snd (meet_list_races L e g st))) + d - t \<le> update_interval (fst st)
          \<and> page_content (fst (snd (meet_list_races L e g st))) = Some soup
          \<and> i < length (result_tables soup)"
  then have t: "last_updated (fst (snd (meet_list_races L e g st))) = Some t"
    and c: "clock (snd (snd (meet_list_races L e g st))) + d - t \<le> update_interval (fst st)"
    by simp_all
  from meet_list_results_after_races [OF assms t c, of "int i + 1"] a
  show "fst (meet_list_results L e g (int i + 1) (advance d (snd (meet_list_races L e g st))))
              = results_of_table L (result_tables soup ! i)"
    by (simp add: list_results_from_page)
qed

text \<open>\<open>list_races\<close> returns whenever every result table has a head row with an event
  cell.\<close>

lemma for_each_returns:
  "list_all (\<lambda>x. \<exists>ys. body x = Inr ys) xs \<Longrightarrow> \<exists>zs. for_each body xs = Inr zs"
  by (induction xs) auto

lemma list_races_returns:
  assumes "list_all (\<lambda>t. \<exists>name. race_name_of L t = Inr name) (result_tables soup)"
  shows "\<exists>races. list_races_from L (Inr (Some soup)) = Inr races"
proof -
  have "list_all (\<lambda>x. \<exists>ys. race_entry L x = Inr ys)
          (zip [0..<length (result_tables soup)] (result_tables soup))"
    using assms
    by (auto simp: list_all_iff race_entry_def then_do_def dest!: set_zip_rightD)
  from for_each_returns [OF this] show ?thesis
    by (simp add: list_races_from_page)
qed

text \<open>The example page with two result tables.\<close>

lemma result_tables_two_races: "result_tables page_two_races = [heats_table, final_table]"
  by (simp add: result_tables_def find_all_def page_two_races_def heats_table_def final_table_def)


lemma body_two_races: "find_tag page_two_races ''body'' [] \<noteq> None"
  by (simp add: find_tag_def find_all_def page_two_races_def heats_table_def final_table_def)

lemma list_races_two_races:
  "list_races_from lib0 (Inr (Some page_two_races)) =
     Inr [[(''race_id'', PInt 1), (''race_name'', PStr ''Heats'')],
          [(''race_id'', PInt 2), (''race_name'', PStr ''Final'')]]"
  by (simp add: list_races_from_page result_tables_two_races race_entry_def race_name_of_def
      then_do_def find_on_def get_text_on_def get_text_strip_def strip_def is_space_def
      char_in_def find_tag_def find_all_def heats_table_def final_table_def lib0_def)

lemma parse_qs_examples:
  "plain_parse_qs ''?page=athleteDetail&athleteId=7'' =
     [(''page'', [''athleteDetail'']), (''athleteId'', [''7''])]"
  "plain_parse_qs ''?page=resultDetail&id=9'' = [(''page'', [''resultDetail'']), (''id'', [''9''])]"
  by (simp_all add: plain_parse_qs_def group_values_def name_value_def plus_to_blank_def
      url_query_def)

lemma results_of_final_table:
  "results_of_table lib0 final_table =
     Inr [[(''result_id'', PStr ''9''), (''athlete_id'', PStr ''7''), (''name'', PStr ''DOE, Jo''),
           (''club_name'', PStr ''Club A''), (''time'', PStr ''28.44''), (''split_times'', PList [])]]"
  by (simp add: results_of_table_def result_row_def then_do_def find_on_def get_text_on_def
      get_text_strip_def strip_def is_space_def char_in_def find_tag_def find_all_def
      final_table_def lib0_def query_first_def py_index_def parse_qs_examples)


lemma meet0_fields:
  "last_updated meet0 = None" "page_content meet0 = None" "update_interval meet0 = 60"
  "last_request meet0 = None" "meet_id meet0 = PInt 642564"
  by (simp_all add: meet0_def new_scraper_def scraper.defs meet.defs)

lemma fetch_two_races:
  "get_page_for d (meet0, world0 (server_page page_two_races)) =
     (Inr (Some page_two_races),
      meet0\<lparr>page_content := Some page_two_races, last_updated := Some 0, last_request := Some 2\<rparr>,
      (world0 (server_page page_two_races))
        \<lparr>objects := (objects (world0 (server_page page_two_races)))(2 := d), next_object := 3,
         manager := \<lparr>request_history = [0], max_requests_per_second = 15, max_per = 30\<rparr>,
         requests_sent := [d]\<rparr>)"
proof -
  from body_two_races obtain b where "find_tag page_two_races ''body'' [] = Some b" by auto
  then show ?thesis
  by (simp add: get_page_for_def new_dict_def get_page_content_def needs_update_def
      update_page_content_def check_request_rate_limit_def world0_def server_page_def
      new_session_manager_def add_request_def Let_def meet0_fields numeral_3_eq_3)
qed

text \<open>A meet page with two result tables, fetched from a server by a fresh \<open>Meet\<close>: the
  races get the identifiers 1 and 2 in the order of the tables; the results of race 2 are the
  rows of the second table, asked for on the fresh object or 5 seconds after the races, and
  asked for after the races they come from the page fetched for the races, the only GET.\<close>

theorem race_ids_follow_document_order_witness:
  "fst (meet_list_races lib0 (PInt 1) (PInt 1) (meet0, world0 (server_page page_two_races))) =
     Inr [[(''race_id'', PInt 1), (''race_name'', PStr ''Heats'')],
          [(''race_id'', PInt 2), (''race_name'', PStr ''Final'')]]
   \<and> length (result_tables page_two_races) = 2
   \<and> fst (meet_list_results lib0 (PInt 1) (PInt 1) 2 (meet0, world0 (server_page page_two_races))) =
       Inr [[(''result_id'', PStr ''9''), (''athlete_id'', PStr ''7''), (''name'', PStr ''DOE, Jo''),
             (''club_name'', PStr ''Club A''), (''time'', PStr ''28.44''), (''split_times'', PList [])]]
   \<and> fst (meet_list_results lib0 (PInt 1) (PInt 1) 2
        (advance 5 (snd (meet_list_races lib0 (PInt 1) (PInt 1)
           (meet0, world0 (server_page page_two_races)))))) =
       Inr [[(''result_id'', PStr ''9''), (''athlete_id'', PStr ''7''), (''name'', PStr ''DOE, Jo''),
             (''club_name'', PStr ''Club A''), (''time'', PStr ''28.44''), (''split_times'', PList [])]]
   \<and> requests_sent (snd (snd (meet_list_results lib0 (PInt 1) (PInt 1) 2
        (advance 5 (snd (meet_list_races lib0 (PInt 1) (PInt 1)
           (meet0, world0 (server_page page_two_races)))))))) =
       [[(''page'', PStr ''meetDetail''), (''meetId'', PInt 642564), (''gender'', PInt 1),
         (''styleId'', PInt 1)]]"
proof -
  let ?st0 = "(meet0, world0 (server_page page_two_races))"
  let ?races = "[[(''race_id'', PInt 1), (''race_name'', PStr ''Heats'')],
          [(''race_id'', PInt 2), (''race_name'', PStr ''Final'')]]"
  have ok: "rate_limit_ok (snd ?st0)"
    by (simp add: down_defs)
  have run: "fst (meet_list_races lib0 (PInt 1) (PInt 1) ?st0) = Inr ?races"
    "page_content (fst (snd (meet_list_races lib0 (PInt 1) (PInt 1) ?st0))) = Some page_two_races"
    "last_updated (fst (snd (meet_list_races lib0 (PInt 1) (PInt 1) ?st0))) = Some 0"
    "clock (snd (snd (meet_list_races lib0 (PInt 1) (PInt 1) ?st0))) = 0"
    "requests_sent (snd (snd (meet_list_races lib0 (PInt 1) (PInt 1) ?st0))) =
       [[(''page'', PStr ''meetDetail''), (''meetId'', PInt 642564), (''gender'', PInt 1),
         (''styleId'', PInt 1)]]"
    "page_content (fst (snd (meet_list_results lib0 (PInt 1) (PInt 1) 2 ?st0))) = Some page_two_races"
    by (simp_all add: meet_list_races_unfold meet_list_results_unfold fetch_two_races meet0_fields
        list_races_two_races)
       (simp_all add: world0_def)
  from race_ids_follow_document_order [OF ok, where L = lib0 and e = "PInt 1" and g = "PInt 1"
      and soup = page_two_races and i = 1 and t = 0 and d = 5 and rid = 2 and races = ?races]
  show ?thesis
    by (simp add: run result_tables_two_races results_of_final_table meet0_fields)
qed

end
